theory Spec2Isabelle
  imports Complex_Main "HOL-Library.Sublist"
begin

section \<open>Strings and paths\<close>

text \<open>
  A Python \<^verbatim>\<open>str\<close> is a sequence of Unicode code points. Paths, dataset tags and the
  program's own messages are kept in \<^typ>\<open>string\<close>, whose characters are the code points
  below 256; nothing the program does with them looks further. What the user types at the
  prompt is arbitrary, so an answer is a list of code points.
\<close>

type_synonym path = string

type_synonym unicode = "nat list"

definition code_points :: "string \<Rightarrow> unicode" where
  "code_points s = map of_char s"

text \<open>\<^verbatim>\<open>needle in haystack\<close> on strings: the needle occurs as a contiguous run.\<close>

fun str_in :: "string \<Rightarrow> string \<Rightarrow> bool" where
  "str_in needle [] = (needle = [])"
| "str_in needle (c # cs) = (prefix needle (c # cs) \<or> str_in needle cs)"

text \<open>
  \<^verbatim>\<open>str.upper\<close>, code point by code point: the letters of Basic Latin and Latin-1
  (\<open>U+00DF\<close> becomes \<open>SS\<close>, \<open>U+00B5\<close> and \<open>U+00FF\<close> leave Latin-1), and
  \<open>U+017F\<close>, LATIN SMALL LETTER LONG S, which becomes \<open>S\<close>. The rest of the Unicode
  table is left out, its code points stay as they are; none of them becomes \<open>S\<close> or
  \<open>N\<close>.
\<close>

definition upper_point :: "nat \<Rightarrow> unicode" where
  "upper_point c =
     (if 0x61 \<le> c \<and> c \<le> 0x7A then [c - 0x20]
      else if c = 0xB5 then [0x39C]
      else if c = 0xDF then [0x53, 0x53]
      else if 0xE0 \<le> c \<and> c \<le> 0xFE \<and> c \<noteq> 0xF7 then [c - 0x20]
      else if c = 0xFF then [0x178]
      else if c = 0x17F then [0x53]
      else [c])"

definition upper :: "unicode \<Rightarrow> unicode" where
  "upper s = concat (map upper_point s)"

text \<open>
  \<^verbatim>\<open>os.path.join(a, b)\<close> of \<^verbatim>\<open>posixpath\<close>: an absolute second component replaces the
  first, otherwise the two are glued with exactly one separator.
\<close>

definition path_join :: "path \<Rightarrow> path \<Rightarrow> path" where
  "path_join a b =
     (if prefix ''/'' b then b
      else if a = [] \<or> last a = CHR ''/'' then a @ b
      else a @ ''/'' @ b)"

text \<open>
  \<^verbatim>\<open>os.path.split\<close> of \<^verbatim>\<open>posixpath\<close>: the tail is what follows the last separator,
  the head is what precedes it, without trailing separators unless it is the root.
\<close>

definition path_split :: "path \<Rightarrow> path \<times> string" where
  "path_split p =
     (let tail = rev (takeWhile (\<lambda>c. c \<noteq> CHR ''/'') (rev p));
          head = rev (dropWhile (\<lambda>c. c \<noteq> CHR ''/'') (rev p))
      in (if filter (\<lambda>c. c \<noteq> CHR ''/'') head \<noteq> []
          then rev (dropWhile (\<lambda>c. c = CHR ''/'') (rev head)) else head, tail))"

section \<open>The world the program runs in\<close>

text \<open>
  Exceptions are values. The subclasses of \<^verbatim>\<open>OSError\<close> that file operations raise
  (\<^verbatim>\<open>FileNotFoundError\<close>, \<^verbatim>\<open>FileExistsError\<close>, \<^verbatim>\<open>NotADirectoryError\<close>,
  \<^verbatim>\<open>IsADirectoryError\<close>) are one constructor carrying the offending path.
\<close>

datatype py_error =
    OSError path
  | EOFError
  | ValueError string
  | KeyError string
  | AttributeError string
  | IndexError string
  | InvalidIndexError

text \<open>Calls that reach outside the process, in the order they are made.\<close>

datatype event =
    Prompt string
  | ListDir path
  | ReadFile path
  | MakeDirs path
  | WriteFile path

text \<open>
  The file system maps a directory path to its entries in the order \<^verbatim>\<open>os.listdir\<close>
  reports them and a file path to its text; \<open>stdin\<close> holds the lines still to be
  read by \<^verbatim>\<open>input\<close>.
\<close>

record world =
  cwd :: path
  dirs :: "path \<rightharpoonup> string list"
  contents :: "path \<rightharpoonup> string"
  stdin :: "unicode list"
  trace :: "event list"

definition log_event :: "event \<Rightarrow> world \<Rightarrow> world" where
  "log_event e w = w\<lparr>trace := trace w @ [e]\<rparr>"

definition is_dir :: "world \<Rightarrow> path \<Rightarrow> bool" where
  "is_dir w p = (dirs w p \<noteq> None)"

definition path_exists :: "world \<Rightarrow> path \<Rightarrow> bool" where
  "path_exists w p = (dirs w p \<noteq> None \<or> contents w p \<noteq> None)"

text \<open>A new entry goes to the end of its directory's listing; a known one stays in place.\<close>

definition add_entry :: "world \<Rightarrow> path \<Rightarrow> string \<Rightarrow> world" where
  "add_entry w parent name =
     (case dirs w parent of
        None \<Rightarrow> w
      | Some names \<Rightarrow>
          if name \<in> set names then w
          else w\<lparr>dirs := (dirs w)(parent \<mapsto> names @ [name])\<rparr>)"

text \<open>
  \<^verbatim>\<open>os.mkdir(name)\<close>: fails when the path exists or its parent is not a directory.
  A relative single component is created under the working directory.
\<close>

definition split_name :: "path \<Rightarrow> path \<times> string" where
  "split_name name =
     (let (head, tail) = path_split name
      in if tail = [] then path_split head else (head, tail))"

definition mkdir :: "world \<Rightarrow> path \<Rightarrow> py_error + world" where
  "mkdir w name =
     (let (head, tail) = split_name name;
          parent = (if head = [] then cwd w else head)
      in if path_exists w name then Inl (OSError name)
         else if \<not> is_dir w parent then Inl (OSError name)
         else Inr ((add_entry w parent tail)\<lparr>dirs := (dirs (add_entry w parent tail))(name \<mapsto> [])\<rparr>))"

text \<open>
  \<^verbatim>\<open>os.makedirs(name, exist_ok=True)\<close>: missing ancestors are created first, then the
  leaf; a failing \<^verbatim>\<open>mkdir\<close> is forgiven exactly when the leaf is a directory already.
\<close>

function makedirs :: "world \<Rightarrow> path \<Rightarrow> py_error + world" where
  "makedirs w name =
     (case (if fst (split_name name) \<noteq> [] \<and> snd (split_name name) \<noteq> []
               \<and> \<not> path_exists w (fst (split_name name))
            then makedirs w (fst (split_name name)) else Inr w) of
        Inl e \<Rightarrow> Inl e
      | Inr w1 \<Rightarrow>
          if snd (split_name name) = ''.'' then Inr w1
          else (case mkdir w1 name of
                  Inr w2 \<Rightarrow> Inr w2
                | Inl e \<Rightarrow> if is_dir w1 name then Inr w1 else Inl e))"
  by pat_completeness auto

lemma path_split_length:
  "snd (path_split p) \<noteq> [] \<Longrightarrow> length (fst (path_split p)) < length p"
proof -
  have "length (fst (path_split p)) \<le> length (dropWhile (\<lambda>c. c \<noteq> CHR ''/'') (rev p))"
    by (simp add: path_split_def Let_def length_dropWhile_le)
  moreover assume "snd (path_split p) \<noteq> []"
  then have "takeWhile (\<lambda>c. c \<noteq> CHR ''/'') (rev p) \<noteq> []"
    by (simp add: path_split_def Let_def)
  then have "length (dropWhile (\<lambda>c. c \<noteq> CHR ''/'') (rev p)) < length (rev p)"
    by (metis (no_types, lifting) takeWhile_dropWhile_id length_append length_greater_0_conv less_add_same_cancel2 add.commute)
  ultimately show ?thesis by simp
qed

lemma path_split_length_le: "length (fst (path_split p)) \<le> length p"
proof -
  have "length (fst (path_split p)) \<le> length (dropWhile (\<lambda>c. c \<noteq> CHR ''/'') (rev p))"
    by (simp add: path_split_def Let_def length_dropWhile_le)
  also have "\<dots> \<le> length (rev p)" by (rule length_dropWhile_le)
  finally show ?thesis by simp
qed

lemma split_name_length:
  "snd (split_name name) \<noteq> [] \<Longrightarrow> length (fst (split_name name)) < length name"
  using path_split_length [of name] path_split_length [of "fst (path_split name)"]
    path_split_length_le [of name]
  by (auto simp: split_name_def Let_def split: prod.splits if_splits)

termination makedirs
  by (relation "measure (\<lambda>(w, name). length name)") (auto simp: split_name_length)

declare makedirs.simps [simp del]

text \<open>
  Writing a file (what \<^verbatim>\<open>DataFrame.to_csv(path)\<close> does to the file system): the
  parent must be a directory and the path itself must not be one.
\<close>

definition write_file :: "world \<Rightarrow> path \<Rightarrow> string \<Rightarrow> py_error + world" where
  "write_file w name txt =
     (let (head, tail) = path_split name;
          parent = (if head = [] then cwd w else head)
      in if tail = [] \<or> is_dir w name then Inl (OSError name)
         else if \<not> is_dir w parent then Inl (OSError name)
         else Inr ((add_entry w parent tail)\<lparr>contents := (contents w)(name \<mapsto> txt)\<rparr>))"

section \<open>Tables\<close>

text \<open>
  A \<^verbatim>\<open>DataFrame\<close>: column labels, and the rows in order, each with its index label
  and one cell per column. A cell is a number or the missing value; numbers are reals,
  so the rounding of the machine's floating-point arithmetic is left out. The index
  labels are strings in a freshly read record file, timestamps once
  \<^verbatim>\<open>to_datetime\<close> has run, and calendar years after grouping.
\<close>

datatype cell = Num real | NaN

record 'l frame =
  columns :: "string list"
  rows :: "('l \<times> cell list) list"

record timestamp =
  ts_year :: int
  ts_month :: nat
  ts_day :: nat
  ts_hour :: nat
  ts_minute :: nat

definition map_cells :: "(cell \<Rightarrow> cell) \<Rightarrow> 'l frame \<Rightarrow> 'l frame" where
  "map_cells g df = df\<lparr>rows := map (\<lambda>(l, cs). (l, map g cs)) (rows df)\<rparr>"

text \<open>
  The parts of the tabular-data library that touch file text are parameters: the two
  ways the program calls \<^verbatim>\<open>pd.read_csv\<close>, \<^verbatim>\<open>DataFrame.to_csv\<close>, and the parser
  behind \<^verbatim>\<open>pd.to_datetime(_, format="%d/%m/%y %H:%M")\<close> on one label.
\<close>

record pandas =
  read_csv_raw :: "string \<Rightarrow> py_error + string frame"
  read_csv_dates :: "string \<Rightarrow> py_error + timestamp frame"
  to_csv :: "timestamp frame \<Rightarrow> string"
  strptime :: "string \<Rightarrow> timestamp option"

text \<open>\<^verbatim>\<open>df.rename(columns={"kW": "Energy"})\<close>\<close>

definition rename_kW :: "'l frame \<Rightarrow> 'l frame" where
  "rename_kW df = df\<lparr>columns := map (\<lambda>c. if c = ''kW'' then ''Energy'' else c) (columns df)\<rparr>"

text \<open>\<^verbatim>\<open>df /= 1000\<close>, on one cell; a missing value stays missing.\<close>

fun div_1000 :: "cell \<Rightarrow> cell" where
  "div_1000 (Num x) = Num (x / 1000)"
| "div_1000 NaN = NaN"

text \<open>\<^verbatim>\<open>lambda x: 0 if x < 0 else x\<close>; the comparison is false on a missing value.\<close>

fun zero_if_negative :: "cell \<Rightarrow> cell" where
  "zero_if_negative (Num x) = (if x < 0 then Num 0 else Num x)"
| "zero_if_negative NaN = NaN"

text \<open>
  \<^verbatim>\<open>pd.to_datetime(df.index, format=...)\<close>: every label must parse, in order, or the
  whole conversion raises.
\<close>

fun to_datetime :: "(string \<Rightarrow> timestamp option) \<Rightarrow> (string \<times> cell list) list
    \<Rightarrow> (timestamp \<times> cell list) list option" where
  "to_datetime parse [] = Some []"
| "to_datetime parse ((l, cs) # rs) =
     (case parse l of
        None \<Rightarrow> None
      | Some t \<Rightarrow> (case to_datetime parse rs of
                    None \<Rightarrow> None
                  | Some rs' \<Rightarrow> Some ((t, cs) # rs')))"

section \<open>preprocessing.py\<close>

text \<open>\<^verbatim>\<open>list_files\<close>: the listing, joined to the directory, filtered on the joined path.\<close>

definition list_files :: "world \<Rightarrow> path \<Rightarrow> string \<Rightarrow> (py_error + path list) \<times> world" where
  "list_files w directory dataset_name =
     (let w1 = log_event (ListDir directory) w
      in case dirs w directory of
           None \<Rightarrow> (Inl (OSError directory), w1)
         | Some names \<Rightarrow>
             (let files = map (\<lambda>file. path_join directory file) names
              in (Inr (filter (\<lambda>file_path. str_in dataset_name file_path) files), w1)))"

text \<open>
  \<^verbatim>\<open>read_and_format_data\<close>, after \<^verbatim>\<open>pd.read_csv\<close> has produced the table: rename,
  divide, clamp, then convert the index. The library's message of a failed conversion is
  abbreviated.
\<close>

definition format_data :: "pandas \<Rightarrow> string frame \<Rightarrow> py_error + timestamp frame" where
  "format_data lib df0 =
     (let df1 = rename_kW df0;
          df2 = map_cells div_1000 df1;
          df3 = map_cells zero_if_negative df2
      in case to_datetime (strptime lib) (rows df3) of
           None \<Rightarrow> Inl (ValueError ''time data does not match format'')
         | Some rs \<Rightarrow> Inr \<lparr>columns = columns df3, rows = rs\<rparr>)"

definition read_and_format_data ::
    "pandas \<Rightarrow> world \<Rightarrow> path \<Rightarrow> (py_error + timestamp frame) \<times> world" where
  "read_and_format_data lib w file_path =
     (let w1 = log_event (ReadFile file_path) w
      in case contents w file_path of
           None \<Rightarrow> (Inl (OSError file_path), w1)
         | Some txt \<Rightarrow>
             (case read_csv_raw lib txt of
                Inl e \<Rightarrow> (Inl e, w1)
              | Inr df \<Rightarrow> (format_data lib df, w1)))"

text \<open>The prompt and the message of the explicit \<^verbatim>\<open>ValueError\<close>, as in the source.\<close>

definition prompt_text :: string where
  "prompt_text = ''Arquivo j'' @ [CHR 0xE1] @ '' existe, deseja processar e salvar outra vers''
     @ [CHR 0xE3] @ ''o? (S/N)''"

definition invalid_answer_text :: string where
  "invalid_answer_text = ''Por favor, insira uma resposta v'' @ [CHR 0xE1] @ ''lida (S/N)''"

text \<open>
  \<^verbatim>\<open>check_file_processing\<close>: \<^verbatim>\<open>input\<close> takes the next line of \<open>stdin\<close> and raises
  \<^verbatim>\<open>EOFError\<close> when there is none.
\<close>

definition check_file_processing :: "world \<Rightarrow> path \<Rightarrow> (py_error + bool) \<times> world" where
  "check_file_processing w file_path =
     (if path_exists w file_path then
        (let w1 = log_event (Prompt prompt_text) w
         in case stdin w1 of
              [] \<Rightarrow> (Inl EOFError, w1)
            | user_response # rest \<Rightarrow>
                (let w2 = w1\<lparr>stdin := rest\<rparr>
                 in if upper user_response = code_points ''S'' then (Inr True, w2)
                    else if upper user_response = code_points ''N'' then (Inr False, w2)
                    else (Inl (ValueError invalid_answer_text), w2)))
      else (Inr True, w))"

text \<open>
  \<^verbatim>\<open>pd.concat(data_frames, axis=0)\<close>: rows are appended in list order and none is
  merged or dropped. Frames with one and the same column list keep it; otherwise the
  result has every column in order of first appearance, a row has the missing value
  where its frame lacks the column, and a frame with a repeated label cannot be aligned.
  An empty list raises.
\<close>

definition first_occurrences :: "string list \<Rightarrow> string list" where
  "first_occurrences xs = rev (remdups (rev xs))"

definition reindex_row :: "string list \<Rightarrow> string list \<Rightarrow> cell list \<Rightarrow> cell list" where
  "reindex_row old new cs =
     map (\<lambda>c. case map_of (zip old cs) c of Some v \<Rightarrow> v | None \<Rightarrow> NaN) new"

definition pd_concat :: "'l frame list \<Rightarrow> py_error + 'l frame" where
  "pd_concat dfs =
     (case dfs of
        [] \<Rightarrow> Inl (ValueError ''No objects to concatenate'')
      | df # rest \<Rightarrow>
          if list_all (\<lambda>d. columns d = columns df) rest
          then Inr \<lparr>columns = columns df, rows = concat (map rows dfs)\<rparr>
          else if \<not> list_all (\<lambda>d. distinct (columns d)) dfs then Inl InvalidIndexError
          else (let cols = first_occurrences (concat (map columns dfs))
                in Inr \<lparr>columns = cols,
                        rows = concat (map (\<lambda>d. map (\<lambda>(l, cs). (l, reindex_row (columns d) cols cs))
                                                    (rows d)) dfs)\<rparr>))"

text \<open>\<^verbatim>\<open>compiled_df *= (1 - transformer_loss) * (1 - transmission_loss)\<close>\<close>

fun times :: "real \<Rightarrow> cell \<Rightarrow> cell" where
  "times k (Num x) = Num (x * k)"
| "times k NaN = NaN"

definition apply_losses :: "real \<Rightarrow> real \<Rightarrow> 'l frame \<Rightarrow> 'l frame" where
  "apply_losses transformer_loss transmission_loss df =
     map_cells (times ((1 - transformer_loss) * (1 - transmission_loss))) df"

definition output_dir :: "world \<Rightarrow> path" where
  "output_dir w = path_join (path_join (cwd w) ''data'') ''output''"

definition output_file :: "world \<Rightarrow> string \<Rightarrow> path" where
  "output_file w dataset_name =
     path_join (output_dir w) (''dados_compilados_'' @ dataset_name @ ''.csv'')"

text \<open>The \<^verbatim>\<open>for file in files\<close> loop: the first failing file aborts it.\<close>

fun read_loop :: "pandas \<Rightarrow> world \<Rightarrow> path list \<Rightarrow> timestamp frame list
    \<Rightarrow> (py_error + timestamp frame list) \<times> world" where
  "read_loop lib w [] data_frames = (Inr data_frames, w)"
| "read_loop lib w (file # files) data_frames =
     (case read_and_format_data lib w file of
        (Inl e, w1) \<Rightarrow> (Inl e, w1)
      | (Inr df, w1) \<Rightarrow> read_loop lib w1 files (data_frames @ [df]))"

text \<open>The body of \<^verbatim>\<open>if process:\<close> in \<^verbatim>\<open>compile_data\<close>: a fresh compilation.\<close>

definition process_files :: "pandas \<Rightarrow> world \<Rightarrow> path \<Rightarrow> string \<Rightarrow> real \<Rightarrow> real \<Rightarrow> bool
    \<Rightarrow> (py_error + timestamp frame) \<times> world" where
  "process_files lib w directory dataset_name transformer_loss transmission_loss save_data =
     (case list_files w directory dataset_name of
        (Inl e, w1) \<Rightarrow> (Inl e, w1)
      | (Inr files, w1) \<Rightarrow>
          (case read_loop lib w1 files [] of
             (Inl e, w2) \<Rightarrow> (Inl e, w2)
           | (Inr data_frames, w2) \<Rightarrow>
               (case pd_concat data_frames of
                  Inl e \<Rightarrow> (Inl e, w2)
                | Inr df \<Rightarrow>
                    (let compiled_df = apply_losses transformer_loss transmission_loss df
                     in if save_data then
                          (let w3 = log_event (MakeDirs (output_dir w)) w2
                           in case makedirs w3 (output_dir w) of
                                Inl e \<Rightarrow> (Inl e, w3)
                              | Inr w4 \<Rightarrow>
                                  (let w5 = log_event (WriteFile (output_file w dataset_name)) w4
                                   in case write_file w5 (output_file w dataset_name)
                                             (to_csv lib compiled_df) of
                                        Inl e \<Rightarrow> (Inl e, w5)
                                      | Inr w6 \<Rightarrow> (Inr compiled_df, w6)))
                        else (Inr compiled_df, w2)))))"

definition compile_data :: "pandas \<Rightarrow> world \<Rightarrow> path \<Rightarrow> string \<Rightarrow> real \<Rightarrow> real \<Rightarrow> bool
    \<Rightarrow> (py_error + timestamp frame) \<times> world" where
  "compile_data lib w directory dataset_name transformer_loss transmission_loss save_data =
     (case check_file_processing w (output_file w dataset_name) of
        (Inl e, w1) \<Rightarrow> (Inl e, w1)
      | (Inr process, w1) \<Rightarrow>
          if process then
            process_files lib w1 directory dataset_name transformer_loss transmission_loss
              save_data
          else
            (let w2 = log_event (ReadFile (output_file w dataset_name)) w1
             in case contents w1 (output_file w dataset_name) of
                  None \<Rightarrow> (Inl (OSError (output_file w dataset_name)), w2)
                | Some txt \<Rightarrow> (read_csv_dates lib txt, w2)))"

section \<open>plotting.py\<close>

text \<open>
  \<^verbatim>\<open>data.groupby(data.index.year).sum()\<close>: one row per calendar year present, years
  ascending, each column summed over the rows of that year, missing values skipped.
\<close>

fun cell_value :: "cell \<Rightarrow> real" where
  "cell_value (Num x) = x"
| "cell_value NaN = 0"

definition cell_at :: "cell list \<Rightarrow> nat \<Rightarrow> cell" where
  "cell_at cs j = (if j < length cs then cs ! j else NaN)"

definition groupby_year_sum :: "timestamp frame \<Rightarrow> int frame" where
  "groupby_year_sum data =
     (let years = sort (remdups (map (\<lambda>(t, cs). ts_year t) (rows data)))
      in \<lparr>columns = columns data,
          rows = map (\<lambda>y. (y, map (\<lambda>j. Num (sum_list (map (\<lambda>(t, cs). cell_value (cell_at cs j))
                                        (filter (\<lambda>(t, cs). ts_year t = y) (rows data)))))
                                 [0..<length (columns data)])) years\<rparr>)"

text \<open>
  \<^verbatim>\<open>DataFrame.nlargest(n, column)\<close>: a missing column is a \<^verbatim>\<open>KeyError\<close>; otherwise the
  first \<open>n\<close> rows in descending order of the column, ties in their original order
  (\<^verbatim>\<open>keep="first"\<close>), rows with a missing value last. A label carried by several columns
  selects no single column, and the lookup of its type fails.
\<close>

definition nlargest :: "int \<Rightarrow> string \<Rightarrow> 'l frame \<Rightarrow> py_error + 'l frame" where
  "nlargest n column df =
     (case filter (\<lambda>j. columns df ! j = column) [0..<length (columns df)] of
        [] \<Rightarrow> Inl (KeyError column)
      | [j] \<Rightarrow>
          (let present = filter (\<lambda>(l, cs). cell_at cs j \<noteq> NaN) (rows df);
               missing = filter (\<lambda>(l, cs). cell_at cs j = NaN) (rows df)
           in Inr (df\<lparr>rows := take (nat n)
                       (sort_key (\<lambda>(l, cs). - cell_value (cell_at cs j)) present @ missing)\<rparr>))
      | _ \<Rightarrow> Inl (AttributeError ''dtype''))"

text \<open>
  What a renderer shows: the table drawn as bars, first row on top, and the text labels,
  each with the value it prints and the position of its bar. Titles and axis names are
  fixed texts, and how a value is printed is the number formatter's business.
\<close>

record chart =
  bars :: "int frame"
  texts :: "(cell \<times> nat) list"

text \<open>
  \<^verbatim>\<open>top_years.plot(kind="barh")\<close>: the bar chart of a table without rows cannot be
  laid out, the position of the first bar is looked up in an empty array.
\<close>

definition plot_barh :: "int frame \<Rightarrow> py_error + chart" where
  "plot_barh df =
     (if rows df = [] then Inl (IndexError ''index 0 is out of bounds for axis 0 with size 0'')
      else Inr \<lparr>bars = df, texts = []\<rparr>)"

text \<open>
  \<^verbatim>\<open>top_years["Energy"]\<close>, the values of the one column so labelled. Without such a
  column the lookup is a \<^verbatim>\<open>KeyError\<close>; with several it yields a table, whose
  enumeration gives column labels, and these cannot be printed as numbers.
\<close>

definition column_values :: "string \<Rightarrow> 'l frame \<Rightarrow> py_error + cell list" where
  "column_values column df =
     (case filter (\<lambda>j. columns df ! j = column) [0..<length (columns df)] of
        [] \<Rightarrow> Inl (KeyError column)
      | [j] \<Rightarrow> Inr (map (\<lambda>(l, cs). cell_at cs j) (rows df))
      | _ \<Rightarrow> Inl (ValueError ''Unknown format code''))"

text \<open>\<^verbatim>\<open>str(n)\<close> for an integer, as the f-string of the file name needs it.\<close>

function decimal :: "nat \<Rightarrow> string" where
  "decimal n =
     (if n < 10 then [''0123456789'' ! n]
      else decimal (n div 10) @ [''0123456789'' ! (n mod 10)])"
  by pat_completeness auto

termination decimal
  by (relation "measure id") auto

declare decimal.simps [simp del]

definition str_int :: "int \<Rightarrow> string" where
  "str_int i = (if i < 0 then ''-'' @ decimal (nat (- i)) else decimal (nat i))"

text \<open>
  \<^verbatim>\<open>export_figure\<close>: the directory \<open>images\<close> under the working directory is created
  if need be and the image written there; \<open>png\<close> is what \<^verbatim>\<open>plt.savefig\<close> renders.
\<close>

definition export_figure :: "world \<Rightarrow> string \<Rightarrow> string \<Rightarrow> (py_error + unit) \<times> world" where
  "export_figure w filename png =
     (let output_dir = path_join (cwd w) ''images'';
          w1 = log_event (MakeDirs output_dir) w
      in case makedirs w1 output_dir of
           Inl e \<Rightarrow> (Inl e, w1)
         | Inr w2 \<Rightarrow>
             (let output_path = path_join output_dir filename;
                  w3 = log_event (WriteFile output_path) w2
              in case write_file w3 output_path png of
                   Inl e \<Rightarrow> (Inl e, w3)
                 | Inr w4 \<Rightarrow> (Inr (), w4)))"

text \<open>
  \<^verbatim>\<open>plot_top_years\<close>: group, select, draw, label each bar with its \<open>Energy\<close> value,
  then save on request. The function returns nothing; the model returns the chart it
  shows. \<open>savefig\<close> stands for the rendering of the figure to the bytes of the image.
\<close>

definition plot_top_years ::
    "(chart \<Rightarrow> string) \<Rightarrow> world \<Rightarrow> timestamp frame \<Rightarrow> int \<Rightarrow> bool
      \<Rightarrow> (py_error + chart) \<times> world" where
  "plot_top_years savefig w data top_n save_image =
     (let energy_by_year = groupby_year_sum data
      in case nlargest top_n ''Energy'' energy_by_year of
           Inl e \<Rightarrow> (Inl e, w)
         | Inr top_years \<Rightarrow>
             (case plot_barh top_years of
                Inl e \<Rightarrow> (Inl e, w)
              | Inr fig \<Rightarrow>
                  (case column_values ''Energy'' top_years of
                     Inl e \<Rightarrow> (Inl e, w)
                   | Inr vals \<Rightarrow>
                       (let shown = fig\<lparr>texts := zip vals [0..<length vals]\<rparr>
                        in if save_image then
                             (case export_figure w (''top_'' @ str_int top_n @ ''_anos.png'')
                                     (savefig shown) of
                                (Inl e, w1) \<Rightarrow> (Inl e, w1)
                              | (Inr u, w1) \<Rightarrow> (Inr shown, w1))
                           else (Inr shown, w)))))"

section \<open>The specification's clamping law\<close>

text \<open>
  The law as the specification words it, \<open>output = max(0, input / 1000)\<close>, on one
  cell; it is compared below with what \<^verbatim>\<open>read_and_format_data\<close> computes.
\<close>

fun clamping_law :: "cell \<Rightarrow> cell" where
  "clamping_law (Num x) = Num (max 0 (x / 1000))"
| "clamping_law NaN = NaN"

section \<open>The specification's scaling law\<close>

text \<open>
  The law as the specification words it, \<open>output_value = value * (1 - transformer_loss)
  * (1 - transmission_loss)\<close>, on one cell, and the value a row of a per-file table has
  under a column label: the cell at the first place of that label, a missing value when
  the table has no such column. They are compared below with what
  \<^verbatim>\<open>compile_data\<close> computes.
\<close>

fun scaling_law :: "real \<Rightarrow> real \<Rightarrow> cell \<Rightarrow> cell" where
  "scaling_law transformer_loss transmission_loss (Num x) =
     Num (x * (1 - transformer_loss) * (1 - transmission_loss))"
| "scaling_law transformer_loss transmission_loss NaN = NaN"

fun cell_under :: "string list \<Rightarrow> cell list \<Rightarrow> string \<Rightarrow> cell" where
  "cell_under [] cs c = NaN"
| "cell_under (l # ls) [] c = NaN"
| "cell_under (l # ls) (x # xs) c = (if l = c then x else cell_under ls xs c)"

section \<open>Yearly totals\<close>

text \<open>
  What the Top-N claim speaks of: the calendar years that occur in a table, the place of
  the \<open>Energy\<close> column, and the total of that column over the rows of one year, a
  missing value counting as nothing.
\<close>

definition energy_column :: "'l frame \<Rightarrow> nat" where
  "energy_column df = length (takeWhile (\<lambda>c. c \<noteq> ''Energy'') (columns df))"

definition yearly_energy :: "timestamp frame \<Rightarrow> int \<Rightarrow> real" where
  "yearly_energy data y =
     sum_list (map (\<lambda>(t, cs). cell_value (cell_at cs (energy_column data)))
                   (filter (\<lambda>(t, cs). ts_year t = y) (rows data)))"

definition years_of :: "timestamp frame \<Rightarrow> int set" where
  "years_of data = (\<lambda>(t, cs). ts_year t) ` set (rows data)"

section \<open>A small installation\<close>

text \<open>
  Two record files tagged \<open>Solcast\<close> and one unrelated file in \<open>/home/u/in\<close>; the
  second record file repeats a timestamp of the first. \<open>demo_world\<close> has no compiled
  output yet, \<open>cached_world\<close> has one and the given answers waiting on \<open>stdin\<close>, and
  in \<open>tagged_world\<close> the directory itself carries the tag.
\<close>

definition stamp :: "int \<Rightarrow> nat \<Rightarrow> nat \<Rightarrow> nat \<Rightarrow> timestamp" where
  "stamp y m d h = \<lparr>ts_year = y, ts_month = m, ts_day = d, ts_hour = h, ts_minute = 0\<rparr>"

definition file_a :: "string frame" where
  "file_a = \<lparr>columns = [''kW''],
              rows = [(''01/01/20 00:00'', [Num (- 5)]), (''01/01/20 01:00'', [Num 2500])]\<rparr>"

definition file_b :: "string frame" where
  "file_b = \<lparr>columns = [''kW''],
              rows = [(''01/01/20 01:00'', [Num 1000]), (''01/01/21 00:00'', [Num 4000])]\<rparr>"

definition file_m :: "string frame" where
  "file_m = \<lparr>columns = [''Temp'', ''kW''],
              rows = [(''01/01/21 00:00'', [Num (- 3000), Num 4000])]\<rparr>"

definition cached_table :: "timestamp frame" where
  "cached_table = \<lparr>columns = [''Energy''], rows = [(stamp 2019 6 30 12, [Num 7])]\<rparr>"

definition demo_lib :: pandas where
  "demo_lib = \<lparr>
     read_csv_raw = (\<lambda>txt. if txt = ''A'' then Inr file_a
                          else if txt = ''B'' then Inr file_b
                          else if txt = ''M'' then Inr file_m
                          else Inl (ValueError ''no columns to parse'')),
     read_csv_dates = (\<lambda>txt. if txt = ''C'' then Inr cached_table
                            else Inl (ValueError ''no columns to parse'')),
     to_csv = (\<lambda>df. '','' @ concat (columns df)),
     strptime = (\<lambda>s. if s = ''01/01/20 00:00'' then Some (stamp 2020 1 1 0)
                      else if s = ''01/01/20 01:00'' then Some (stamp 2020 1 1 1)
                      else if s = ''01/01/21 00:00'' then Some (stamp 2021 1 1 0)
                      else None)\<rparr>"

definition demo_world :: world where
  "demo_world = \<lparr>cwd = ''/home/u'',
     dirs = [''/home/u'' \<mapsto> [''in''],
             ''/home/u/in'' \<mapsto> [''Solcast_a.csv'', ''notes.txt'', ''Solcast_b.csv'']],
     contents = [''/home/u/in/Solcast_a.csv'' \<mapsto> ''A'',
                 ''/home/u/in/notes.txt'' \<mapsto> ''hello'',
                 ''/home/u/in/Solcast_b.csv'' \<mapsto> ''B''],
     stdin = [code_points ''s''], trace = []\<rparr>"

definition cached_world :: "unicode list \<Rightarrow> world" where
  "cached_world answers = \<lparr>cwd = ''/home/u'',
     dirs = [''/home/u'' \<mapsto> [''in'', ''data''],
             ''/home/u/in'' \<mapsto> [''Solcast_a.csv'', ''notes.txt'', ''Solcast_b.csv''],
             ''/home/u/data'' \<mapsto> [''output''],
             ''/home/u/data/output'' \<mapsto> [''dados_compilados_Solcast.csv'']],
     contents = [''/home/u/in/Solcast_a.csv'' \<mapsto> ''A'',
                 ''/home/u/in/notes.txt'' \<mapsto> ''hello'',
                 ''/home/u/in/Solcast_b.csv'' \<mapsto> ''B'',
                 ''/home/u/data/output/dados_compilados_Solcast.csv'' \<mapsto> ''C''],
     stdin = answers, trace = []\<rparr>"

definition tagged_world :: world where
  "tagged_world = \<lparr>cwd = ''/home/u'',
     dirs = [''Solcast'' \<mapsto> [''a.csv'']],
     contents = [''Solcast/a.csv'' \<mapsto> ''A''],
     stdin = [], trace = []\<rparr>"

text \<open>
  The table a fresh compilation of \<open>demo_world\<close> yields with a transformer loss of
  0.003 and a transmission loss of 0.01.
\<close>

definition demo_compiled :: "timestamp frame" where
  "demo_compiled = \<lparr>columns = [''Energy''],
     rows = [(stamp 2020 1 1 0, [Num 0]),
             (stamp 2020 1 1 1, [Num (98703 / 40000)]),
             (stamp 2020 1 1 1, [Num (98703 / 100000)]),
             (stamp 2021 1 1 0, [Num (98703 / 25000)])]\<rparr>"

text \<open>
  A compiled table whose column was never renamed.
\<close>

definition unnamed_table :: "timestamp frame" where
  "unnamed_table = \<lparr>columns = [''kW''], rows = [(stamp 2019 6 30 12, [Num 7])]\<rparr>"

text \<open>
  A compiled table from a record file that had both a \<open>kW\<close> and an \<open>Energy\<close>
  column, a stand-in for the renderer of the figure, and the chart of the best year of
  \<open>demo_compiled\<close>.
\<close>

definition twice_labelled_table :: "timestamp frame" where
  "twice_labelled_table =
     \<lparr>columns = [''Energy'', ''Energy''], rows = [(stamp 2020 1 1 0, [Num 1, Num 2])]\<rparr>"

definition demo_savefig :: "chart \<Rightarrow> string" where
  "demo_savefig fig = ''PNG'' @ replicate (length (rows (bars fig))) (CHR ''#'')"

definition demo_top_chart :: chart where
  "demo_top_chart = \<lparr>bars = \<lparr>columns = [''Energy''], rows = [(2021, [Num (98703 / 25000)])]\<rparr>,
                     texts = [(Num (98703 / 25000), 0)]\<rparr>"

text \<open>
  What \<^verbatim>\<open>read_and_format_data\<close> makes of the three record files, an installation
  whose second record file has a further column, and the table a fresh compilation of
  it yields with the same losses.
\<close>

definition formatted_a :: "timestamp frame" where
  "formatted_a = \<lparr>columns = [''Energy''],
     rows = [(stamp 2020 1 1 0, [Num 0]), (stamp 2020 1 1 1, [Num (5 / 2)])]\<rparr>"

definition formatted_b :: "timestamp frame" where
  "formatted_b = \<lparr>columns = [''Energy''],
     rows = [(stamp 2020 1 1 1, [Num 1]), (stamp 2021 1 1 0, [Num 4])]\<rparr>"

definition formatted_m :: "timestamp frame" where
  "formatted_m = \<lparr>columns = [''Temp'', ''Energy''],
     rows = [(stamp 2021 1 1 0, [Num 0, Num 4])]\<rparr>"

definition mixed_world :: world where
  "mixed_world = \<lparr>cwd = ''/home/u'',
     dirs = [''/home/u'' \<mapsto> [''in''],
             ''/home/u/in'' \<mapsto> [''Solcast_a.csv'', ''Solcast_m.csv'']],
     contents = [''/home/u/in/Solcast_a.csv'' \<mapsto> ''A'',
                 ''/home/u/in/Solcast_m.csv'' \<mapsto> ''M''],
     stdin = [], trace = []\<rparr>"

definition mixed_compiled :: "timestamp frame" where
  "mixed_compiled = \<lparr>columns = [''Energy'', ''Temp''],
     rows = [(stamp 2020 1 1 0, [Num 0, NaN]),
             (stamp 2020 1 1 1, [Num (98703 / 40000), NaN]),
             (stamp 2021 1 1 0, [Num (98703 / 25000), Num 0])]\<rparr>"

text \<open>The world a first, persisting run leaves behind in \<open>demo_world\<close>.\<close>

definition demo_rerun_world :: world where
  "demo_rerun_world =
     snd (compile_data demo_lib demo_world ''/home/u/in'' ''Solcast'' 0.003 0.01 True)"

section \<open>Auxiliary facts\<close>

subsection \<open>Substrings and joined paths\<close>

lemma str_in_sublist: "str_in needle hay = sublist needle hay"
  by (induction hay) (simp_all add: sublist_Cons_right)

lemma sublist_across:
  assumes "c \<notin> set n"
  shows "sublist n (a @ c # b) \<longleftrightarrow> sublist n a \<or> sublist n b"
proof
  assume "sublist n (a @ c # b)"
  then consider "sublist n a" | "sublist n (c # b)"
    | xs1 xs2 where "n = xs1 @ xs2" "suffix xs1 a" "prefix xs2 (c # b)"
    by (auto simp: sublist_append)
  then show "sublist n a \<or> sublist n b"
  proof cases
    case 1 then show ?thesis by simp
  next
    case 2
    then have "prefix n (c # b) \<or> sublist n b" by (simp add: sublist_Cons_right)
    moreover have "prefix n (c # b) \<Longrightarrow> n = []" using assms by (cases n) auto
    ultimately show ?thesis by auto
  next
    case 3
    have "xs2 = []" using 3 assms by (cases xs2) auto
    with 3 show ?thesis by (auto simp: suffix_imp_sublist)
  qed
next
  assume "sublist n a \<or> sublist n b"
  then show "sublist n (a @ c # b)"
    by (metis sublist_append sublist_Cons_right)
qed

lemma str_in_path_join:
  assumes "\<not> str_in n d" and "CHR ''/'' \<notin> set n"
  shows "str_in n (path_join d f) = str_in n f"
proof -
  have nd: "\<not> sublist n d" using assms(1) by (simp add: str_in_sublist)
  have sl: "sublist n (a @ CHR ''/'' # b) \<longleftrightarrow> sublist n a \<or> sublist n b" for a b
    using assms(2) by (rule sublist_across)
  show ?thesis
  proof (cases "prefix ''/'' f")
    case True then show ?thesis by (simp add: path_join_def)
  next
    case nf: False
    show ?thesis
    proof (cases "d = []")
      case True then show ?thesis using nf by (simp add: path_join_def)
    next
      case dne: False
      show ?thesis
      proof (cases "last d = CHR ''/''")
        case True
        then obtain d' where d: "d = d' @ ''/''" using dne by (metis append_butlast_last_id)
        have "\<not> sublist n d'" using nd d by (metis sublist_append)
        have "sublist n (d' @ CHR ''/'' # f) \<longleftrightarrow> sublist n f"
          using sl[of d' f] \<open>\<not> sublist n d'\<close> by simp
        then show ?thesis using nf dne True d by (simp add: path_join_def str_in_sublist)
      next
        case False
        have "sublist n (d @ CHR ''/'' # f) \<longleftrightarrow> sublist n f"
          using sl[of d f] nd by simp
        then show ?thesis using nf dne False by (simp add: path_join_def str_in_sublist)
      qed
    qed
  qed
qed

lemma list_files_fst:
  "dirs w directory = Some names \<Longrightarrow>
   fst (list_files w directory dataset_name) =
     Inr (filter (str_in dataset_name) (map (path_join directory) names))"
  by (simp add: list_files_def Let_def)

lemma list_files_snd: "snd (list_files w d n) = log_event (ListDir d) w"
  by (simp add: list_files_def Let_def split: option.splits)

subsection \<open>Upper-casing the answer\<close>

lemma code_points_answers:
  "code_points ''S'' = [0x53]" "code_points ''s'' = [0x73]"
  "code_points ''N'' = [0x4E]" "code_points ''n'' = [0x6E]"
  by (simp_all add: code_points_def)

lemma upper_point_nonempty: "upper_point c \<noteq> []"
  by (simp add: upper_point_def)

lemma upper_point_S: "upper_point c = [0x53] \<longleftrightarrow> c = 0x53 \<or> c = 0x73 \<or> c = 0x17F"
  by (auto simp: upper_point_def)

lemma upper_point_N: "upper_point c = [0x4E] \<longleftrightarrow> c = 0x4E \<or> c = 0x6E"
  by (auto simp: upper_point_def)

lemma upper_single: "upper r = [a] \<longleftrightarrow> (\<exists>c. r = [c] \<and> upper_point c = [a])"
proof (cases r)
  case Nil
  then show ?thesis by (simp add: upper_def)
next
  case (Cons c cs)
  have ne: "upper_point c \<noteq> []" by (rule upper_point_nonempty)
  have "concat (map upper_point cs) = [] \<longleftrightarrow> cs = []"
    using upper_point_nonempty by (cases cs) auto
  then show ?thesis using Cons ne
    by (auto simp: upper_def append_eq_Cons_conv)
qed

lemma upper_S:
  "upper r = code_points ''S'' \<longleftrightarrow>
     r = code_points ''S'' \<or> r = code_points ''s'' \<or> r = [0x17F]"
  by (auto simp: code_points_answers upper_single upper_point_S)

lemma upper_N:
  "upper r = code_points ''N'' \<longleftrightarrow> r = code_points ''N'' \<or> r = code_points ''n''"
  by (auto simp: code_points_answers upper_single upper_point_N)

lemma answers_differ:
  "code_points ''N'' \<noteq> code_points ''S''" "code_points ''N'' \<noteq> code_points ''s''"
  "code_points ''n'' \<noteq> code_points ''S''" "code_points ''n'' \<noteq> code_points ''s''"
  "code_points ''N'' \<noteq> [0x17F]" "code_points ''n'' \<noteq> [0x17F]"
  by (simp_all add: code_points_answers)

lemma check_absent:
  "\<not> path_exists w p \<Longrightarrow> check_file_processing w p = (Inr True, w)"
  by (simp add: check_file_processing_def)

lemma check_answer:
  assumes "path_exists w p" and "stdin w = r # rest"
  shows "check_file_processing w p =
    (if r = code_points ''S'' \<or> r = code_points ''s'' \<or> r = [0x17F] then Inr True
     else if r = code_points ''N'' \<or> r = code_points ''n'' then Inr False
     else Inl (ValueError invalid_answer_text),
     w\<lparr>stdin := rest, trace := trace w @ [Prompt prompt_text]\<rparr>)"
  using assms
  by (simp add: check_file_processing_def log_event_def Let_def upper_S upper_N)

subsection \<open>What each operation leaves alone\<close>

lemma add_entry_frame:
  "cwd (add_entry w p n) = cwd w" "contents (add_entry w p n) = contents w"
  "stdin (add_entry w p n) = stdin w" "trace (add_entry w p n) = trace w"
  by (simp_all add: add_entry_def split: option.splits)

lemma mkdir_frame:
  assumes "mkdir w name = Inr w'"
  shows "cwd w' = cwd w \<and> contents w' = contents w \<and> stdin w' = stdin w \<and> trace w' = trace w"
  using assms
  by (auto simp: mkdir_def Let_def add_entry_frame split: prod.splits if_splits)

lemma makedirs_frame:
  "makedirs w name = Inr w' \<Longrightarrow>
   cwd w' = cwd w \<and> contents w' = contents w \<and> stdin w' = stdin w \<and> trace w' = trace w"
proof (induction w name arbitrary: w' rule: makedirs.induct)
  case (1 w name)
  let ?rec = "fst (split_name name) \<noteq> [] \<and> snd (split_name name) \<noteq> []
               \<and> \<not> path_exists w (fst (split_name name))"
  obtain w1 where w1: "(if ?rec then makedirs w (fst (split_name name)) else Inr w) = Inr w1"
    using "1.prems" by (subst (asm) makedirs.simps) (auto split: sum.splits)
  have f1: "cwd w1 = cwd w \<and> contents w1 = contents w \<and> stdin w1 = stdin w \<and> trace w1 = trace w"
  proof (cases ?rec)
    case True
    then have "makedirs w (fst (split_name name)) = Inr w1" using w1 by simp
    with "1.IH" True show ?thesis by blast
  next
    case False
    then have "w1 = w" using w1 by (simp only: if_False sum.inject)
    then show ?thesis by simp
  qed
  have "w' = w1 \<or> mkdir w1 name = Inr w'"
    using "1.prems" w1
    by (subst (asm) makedirs.simps) (auto split: sum.splits if_splits)
  then show ?case using f1 mkdir_frame by metis
qed

lemma write_file_frame:
  assumes "write_file w name txt = Inr w'"
  shows "cwd w' = cwd w \<and> stdin w' = stdin w \<and> trace w' = trace w
       \<and> contents w' = (contents w)(name \<mapsto> txt)"
  using assms
  by (auto simp: write_file_def Let_def add_entry_frame split: prod.splits if_splits)

lemma read_and_format_data_snd:
  "snd (read_and_format_data lib w p) = log_event (ReadFile p) w"
  by (simp add: read_and_format_data_def Let_def split: option.splits sum.splits)

lemma read_and_format_data_fst:
  "contents w' p = contents w p \<Longrightarrow>
   fst (read_and_format_data lib w' p) = fst (read_and_format_data lib w p)"
  by (simp add: read_and_format_data_def Let_def split: option.splits sum.splits)

lemma read_loop_world:
  "\<exists>evs. snd (read_loop lib w fs acc) = w\<lparr>trace := trace w @ evs\<rparr> \<and> set evs \<subseteq> ReadFile ` set fs"
proof (induction fs arbitrary: w acc)
  case Nil
  show ?case by (rule exI[of _ "[]"]) simp
next
  case (Cons f fs)
  obtain r w1 where r: "read_and_format_data lib w f = (r, w1)" by fastforce
  then have w1: "w1 = log_event (ReadFile f) w"
    using read_and_format_data_snd[of lib w f] by simp
  show ?case
  proof (cases r)
    case (Inl e)
    then show ?thesis using r w1
      by (intro exI[of _ "[ReadFile f]"]) (simp add: log_event_def)
  next
    case (Inr df)
    from Cons.IH[of w1 "acc @ [df]"] obtain evs where
      evs: "snd (read_loop lib w1 fs (acc @ [df])) = w1\<lparr>trace := trace w1 @ evs\<rparr>"
        "set evs \<subseteq> ReadFile ` set fs" by blast
    then show ?thesis using r w1 Inr
      by (intro exI[of _ "ReadFile f # evs"]) (auto simp: log_event_def)
  qed
qed

lemma process_files_world:
  fixes lib w d n k1 k2 sd
  defines "w' \<equiv> snd (process_files lib w d n k1 k2 sd)"
  shows "\<exists>evs. cwd w' = cwd w \<and> stdin w' = stdin w \<and> trace w' = trace w @ evs
      \<and> (\<forall>t. Prompt t \<notin> set evs)
      \<and> (\<not> sd \<longrightarrow> dirs w' = dirs w \<and> contents w' = contents w
            \<and> (\<forall>p. MakeDirs p \<notin> set evs \<and> WriteFile p \<notin> set evs))"
proof -
  obtain r1 w1 where l: "list_files w d n = (r1, w1)" by fastforce
  then have w1: "w1 = log_event (ListDir d) w" using list_files_snd[of w d n] by simp
  show ?thesis
  proof (cases r1)
    case (Inl e)
    then have "w' = w1" using l by (simp add: w'_def process_files_def)
    then show ?thesis using w1
      by (intro exI[of _ "[ListDir d]"]) (simp add: log_event_def)
  next
    case fs: (Inr fs)
    obtain r2 w2 where rl: "read_loop lib w1 fs [] = (r2, w2)" by fastforce
    from read_loop_world[of lib w1 fs "[]"] rl obtain evs where
      evs: "w2 = w1\<lparr>trace := trace w1 @ evs\<rparr>" "set evs \<subseteq> ReadFile ` set fs" by auto
    have w2: "cwd w2 = cwd w" "stdin w2 = stdin w" "dirs w2 = dirs w" "contents w2 = contents w"
      "trace w2 = trace w @ ListDir d # evs"
      using evs w1 by (simp_all add: log_event_def)
    have ro: "\<forall>t. Prompt t \<notin> set (ListDir d # evs)"
      "\<forall>p. MakeDirs p \<notin> set (ListDir d # evs) \<and> WriteFile p \<notin> set (ListDir d # evs)"
      using evs(2) by auto
    have stay: "w' = w2 \<Longrightarrow> ?thesis"
      using w2 ro by (intro exI[of _ "ListDir d # evs"]) simp
    show ?thesis
    proof (cases r2)
      case (Inl e)
      then have "w' = w2" using l fs rl by (simp add: w'_def process_files_def)
      then show ?thesis by (rule stay)
    next
      case dfs: (Inr dfs)
      show ?thesis
      proof (cases "pd_concat dfs")
        case (Inl e)
        then have "w' = w2" using l fs rl dfs by (simp add: w'_def process_files_def)
        then show ?thesis by (rule stay)
      next
        case cat: (Inr cat)
        show ?thesis
        proof (cases sd)
          case False
          then have "w' = w2" using l fs rl dfs cat by (simp add: w'_def process_files_def Let_def)
          then show ?thesis by (rule stay)
        next
          case True
          let ?w3 = "log_event (MakeDirs (output_dir w)) w2"
          show ?thesis
          proof (cases "makedirs ?w3 (output_dir w)")
            case (Inl e)
            then have "w' = ?w3"
              using l fs rl dfs cat True by (simp add: w'_def process_files_def Let_def)
            then show ?thesis using w2 ro(1) True
              by (intro exI[of _ "ListDir d # evs @ [MakeDirs (output_dir w)]"])
                 (auto simp: log_event_def)
          next
            case w4: (Inr w4)
            let ?w5 = "log_event (WriteFile (output_file w n)) w4"
            have f4: "cwd w4 = cwd ?w3 \<and> contents w4 = contents ?w3 \<and> stdin w4 = stdin ?w3
                \<and> trace w4 = trace ?w3"
              using makedirs_frame[OF w4] .
            have "w' = ?w5 \<or> (\<exists>w6. write_file ?w5 (output_file w n)
                     (to_csv lib (apply_losses k1 k2 cat)) = Inr w6 \<and> w' = w6)"
              using l fs rl dfs cat True w4
              by (auto simp: w'_def process_files_def Let_def split: sum.splits)
            then have "cwd w' = cwd ?w5 \<and> stdin w' = stdin ?w5 \<and> trace w' = trace ?w5"
              using write_file_frame by blast
            then show ?thesis using f4 w2 ro(1) True
              by (intro exI[of _ "ListDir d # evs @ [MakeDirs (output_dir w), WriteFile (output_file w n)]"])
                 (auto simp: log_event_def)
          qed
        qed
      qed
    qed
  qed
qed

subsection \<open>Formatting one file\<close>

lemma clamp_after_div: "zero_if_negative (div_1000 c) = clamping_law c"
  by (cases c) (auto simp: max_def)

lemma to_datetime_Some:
  "to_datetime parse rs = Some rs' \<Longrightarrow>
   map snd rs' = map snd rs \<and> map (\<lambda>r. Some (fst r)) rs' = map (\<lambda>r. parse (fst r)) rs"
  by (induction rs arbitrary: rs') (auto split: option.splits)

lemma format_data_Inr:
  assumes "format_data lib raw = Inr df"
  shows "columns df = map (\<lambda>c. if c = ''kW'' then ''Energy'' else c) (columns raw)
       \<and> map snd (rows df) = map (map clamping_law) (map snd (rows raw))
       \<and> map (\<lambda>r. Some (fst r)) (rows df) = map (\<lambda>r. strptime lib (fst r)) (rows raw)"
proof -
  let ?rs = "map (\<lambda>(l, cs). (l, map zero_if_negative cs))
               (map (\<lambda>(l, cs). (l, map div_1000 cs)) (rows raw))"
  from assms obtain rs' where rs': "to_datetime (strptime lib) ?rs = Some rs'"
    and df: "df = \<lparr>columns = map (\<lambda>c. if c = ''kW'' then ''Energy'' else c) (columns raw), rows = rs'\<rparr>"
    by (auto simp: format_data_def Let_def map_cells_def rename_kW_def split: option.splits)
  have "map snd ?rs = map (map clamping_law) (map snd (rows raw))"
    by (induction "rows raw") (auto simp: clamp_after_div split: prod.splits)
  moreover have "map (\<lambda>r. strptime lib (fst r)) ?rs = map (\<lambda>r. strptime lib (fst r)) (rows raw)"
    by (auto split: prod.splits)
  ultimately show ?thesis using to_datetime_Some[OF rs'] df by simp
qed

subsection \<open>The read loop, concatenation and the fresh compilation\<close>

lemma read_loop_Inr:
  "read_loop lib w fs acc = (Inr dfs, w') \<Longrightarrow>
   \<exists>new. dfs = acc @ new
     \<and> list_all2 (\<lambda>file df. fst (read_and_format_data lib w file) = Inr df) fs new"
proof (induction fs arbitrary: w acc)
  case Nil
  then show ?case by simp
next
  case (Cons f fs)
  obtain r w1 where r: "read_and_format_data lib w f = (r, w1)" by fastforce
  then have w1: "w1 = log_event (ReadFile f) w"
    using read_and_format_data_snd[of lib w f] by simp
  from Cons.prems r obtain df where df: "r = Inr df"
    and rest: "read_loop lib w1 fs (acc @ [df]) = (Inr dfs, w')"
    by (cases r) auto
  from Cons.IH[OF rest] obtain new where new: "dfs = (acc @ [df]) @ new"
    "list_all2 (\<lambda>file df. fst (read_and_format_data lib w1 file) = Inr df) fs new" by blast
  have "fst (read_and_format_data lib w1 q) = fst (read_and_format_data lib w q)" for q
    by (rule read_and_format_data_fst) (simp add: w1 log_event_def)
  then have "list_all2 (\<lambda>file df. fst (read_and_format_data lib w file) = Inr df) fs new"
    using new(2) by simp
  then show ?case using new(1) r df by (intro exI[of _ "df # new"]) simp
qed

lemma read_loop_complete:
  "list_all2 (\<lambda>file df. fst (read_and_format_data lib w file) = Inr df) fs new \<Longrightarrow>
   fst (read_loop lib w fs acc) = Inr (acc @ new)"
proof (induction fs arbitrary: w acc new)
  case Nil
  then show ?case by simp
next
  case (Cons f fs)
  from Cons.prems obtain df new' where new: "new = df # new'"
    and df: "fst (read_and_format_data lib w f) = Inr df"
    and rest: "list_all2 (\<lambda>file df. fst (read_and_format_data lib w file) = Inr df) fs new'"
    by (auto simp: list_all2_Cons1)
  let ?w1 = "log_event (ReadFile f) w"
  have r: "read_and_format_data lib w f = (Inr df, ?w1)"
    using df read_and_format_data_snd[of lib w f] by (metis prod.collapse)
  have "fst (read_and_format_data lib ?w1 q) = fst (read_and_format_data lib w q)" for q
    by (rule read_and_format_data_fst) (simp add: log_event_def)
  then have "list_all2 (\<lambda>file df. fst (read_and_format_data lib ?w1 file) = Inr df) fs new'"
    using rest by simp
  from Cons.IH[OF this, of "acc @ [df]"] show ?case using r new by simp
qed

lemma list_all2_read_cong:
  assumes "list_all2 (\<lambda>file df. fst (read_and_format_data lib w file) = Inr df) fs dfs"
    and "\<forall>file \<in> set fs. contents w2 file = contents w file"
  shows "list_all2 (\<lambda>file df. fst (read_and_format_data lib w2 file) = Inr df) fs dfs"
proof (rule list.rel_mono_strong[OF assms(1)])
  fix q df assume "q \<in> set fs" and r: "fst (read_and_format_data lib w q) = Inr df"
  then have "contents w2 q = contents w q" using assms(2) by blast
  from read_and_format_data_fst[OF this, of lib] r
  show "fst (read_and_format_data lib w2 q) = Inr df" by simp
qed

lemma pd_concat_Inr:
  assumes "pd_concat dfs = Inr df"
  shows "dfs \<noteq> [] \<and> map fst (rows df) = concat (map (\<lambda>d. map fst (rows d)) dfs)"
proof -
  have a: "map fst (concat (map rows dfs)) = concat (map (\<lambda>d. map fst (rows d)) dfs)"
    by (simp add: map_concat comp_def)
  have b: "map fst (concat (map (\<lambda>d. map (\<lambda>(l, cs). (l, g d cs)) (rows d)) dfs))
      = concat (map (\<lambda>d. map fst (rows d)) dfs)" for g :: "'a frame \<Rightarrow> cell list \<Rightarrow> cell list"
    by (induction dfs) (auto simp: comp_def split: prod.splits)
  show ?thesis
    using assms a b[of "\<lambda>d. reindex_row (columns d) (first_occurrences (concat (map columns dfs)))"]
    by (auto simp: pd_concat_def Let_def split: list.splits if_splits)
qed

lemma apply_losses_rows:
  "columns (apply_losses k1 k2 df) = columns df"
  "map fst (rows (apply_losses k1 k2 df)) = map fst (rows df)"
  "map snd (rows (apply_losses k1 k2 df)) =
     map (map (times ((1 - k1) * (1 - k2)))) (map snd (rows df))"
  by (auto simp: apply_losses_def map_cells_def split: prod.splits)

lemma check_world:
  "cwd (snd (check_file_processing w p)) = cwd w"
  "dirs (snd (check_file_processing w p)) = dirs w"
  "contents (snd (check_file_processing w p)) = contents w"
  by (auto simp: check_file_processing_def log_event_def Let_def split: list.splits)

lemma list_files_fst_cong:
  "dirs w2 d = dirs w d \<Longrightarrow> fst (list_files w2 d n) = fst (list_files w d n)"
  by (simp add: list_files_def Let_def split: option.splits)

lemma output_paths_cong:
  "cwd w2 = cwd w \<Longrightarrow> output_dir w2 = output_dir w"
  "cwd w2 = cwd w \<Longrightarrow> output_file w2 n = output_file w n"
  by (simp_all add: output_dir_def output_file_def)

lemma makedirs_error:
  "makedirs w name = Inl e \<Longrightarrow> \<exists>p. e = OSError p"
proof (induction w name arbitrary: e rule: makedirs.induct)
  case (1 w name)
  let ?rec = "fst (split_name name) \<noteq> [] \<and> snd (split_name name) \<noteq> []
               \<and> \<not> path_exists w (fst (split_name name))"
  show ?case
  proof (cases "(if ?rec then makedirs w (fst (split_name name)) else Inr w)")
    case (Inl e')
    then have "?rec" and m: "makedirs w (fst (split_name name)) = Inl e'"
      by (auto split: if_splits)
    moreover have "e = e'" using "1.prems" Inl by (subst (asm) makedirs.simps) simp
    ultimately show ?thesis using "1.IH" by blast
  next
    case (Inr w1)
    then have "mkdir w1 name = Inl e"
      using "1.prems" by (subst (asm) makedirs.simps) (auto split: sum.splits if_splits)
    then show ?thesis by (auto simp: mkdir_def Let_def split: prod.splits if_splits)
  qed
qed

lemma write_file_error: "write_file w name body = Inl e \<Longrightarrow> e = OSError name"
  by (auto simp: write_file_def Let_def split: prod.splits if_splits)

lemma process_files_Inr:
  assumes "fst (process_files lib w d n k1 k2 sd) = Inr t"
  shows "\<exists>fs dfs df. fst (list_files w d n) = Inr fs
     \<and> list_all2 (\<lambda>file df. fst (read_and_format_data lib w file) = Inr df) fs dfs
     \<and> pd_concat dfs = Inr df \<and> t = apply_losses k1 k2 df"
proof -
  obtain r1 w1 where l: "list_files w d n = (r1, w1)" by fastforce
  then have w1: "w1 = log_event (ListDir d) w" using list_files_snd[of w d n] by simp
  from assms l obtain fs where fs: "r1 = Inr fs"
    by (cases r1) (auto simp: process_files_def)
  obtain r2 w2 where rl: "read_loop lib w1 fs [] = (r2, w2)" by fastforce
  from assms l fs rl obtain dfs where dfs: "r2 = Inr dfs"
    by (cases r2) (auto simp: process_files_def)
  from assms l fs rl dfs obtain df where df: "pd_concat dfs = Inr df"
    by (cases "pd_concat dfs") (auto simp: process_files_def)
  have t: "t = apply_losses k1 k2 df"
    using assms l fs rl dfs df
    by (auto simp: process_files_def Let_def split: if_splits sum.splits)
  from read_loop_Inr[of lib w1 fs "[]" dfs w2] rl dfs
  have "list_all2 (\<lambda>file df. fst (read_and_format_data lib w1 file) = Inr df) fs dfs" by simp
  moreover have "fst (read_and_format_data lib w1 q) = fst (read_and_format_data lib w q)"
    for q by (rule read_and_format_data_fst) (simp add: w1 log_event_def)
  ultimately have "list_all2 (\<lambda>file df. fst (read_and_format_data lib w file) = Inr df) fs dfs"
    by simp
  then show ?thesis using l fs df t by auto
qed

lemma process_files_complete:
  assumes fs: "fst (list_files w d n) = Inr fs"
    and dfs: "list_all2 (\<lambda>file df. fst (read_and_format_data lib w file) = Inr df) fs dfs"
    and df: "pd_concat dfs = Inr df"
  shows "fst (process_files lib w d n k1 k2 False) = Inr (apply_losses k1 k2 df)"
    and "fst (process_files lib w d n k1 k2 True) = Inr (apply_losses k1 k2 df)
         \<or> (\<exists>p. fst (process_files lib w d n k1 k2 True) = Inl (OSError p))"
proof -
  let ?w1 = "log_event (ListDir d) w"
  have l: "list_files w d n = (Inr fs, ?w1)"
    using fs list_files_snd[of w d n] by (metis prod.collapse)
  have "fst (read_and_format_data lib ?w1 q) = fst (read_and_format_data lib w q)"
    for q by (rule read_and_format_data_fst) (simp add: log_event_def)
  then have "list_all2 (\<lambda>file df. fst (read_and_format_data lib ?w1 file) = Inr df) fs dfs"
    using dfs by simp
  from read_loop_complete[OF this, of "[]"]
  obtain w2 where rl: "read_loop lib ?w1 fs [] = (Inr dfs, w2)"
    by (metis append_Nil prod.collapse)
  show "fst (process_files lib w d n k1 k2 False) = Inr (apply_losses k1 k2 df)"
    using l rl df by (simp add: process_files_def)
  show "fst (process_files lib w d n k1 k2 True) = Inr (apply_losses k1 k2 df)
         \<or> (\<exists>p. fst (process_files lib w d n k1 k2 True) = Inl (OSError p))"
    using l rl df
    by (auto simp: process_files_def Let_def split: sum.splits
             dest: makedirs_error write_file_error)
qed

lemma compile_data_fresh:
  assumes "fst (check_file_processing w (output_file w n)) = Inr True"
  shows "compile_data lib w d n k1 k2 sd =
           process_files lib (snd (check_file_processing w (output_file w n))) d n k1 k2 sd"
  using assms by (cases "check_file_processing w (output_file w n)") (simp add: compile_data_def)

lemma fresh_compile_Inr:
  assumes "fst (check_file_processing w (output_file w n)) = Inr True"
    and "fst (compile_data lib w d n k1 k2 sd) = Inr t"
  shows "\<exists>fs dfs df. fst (list_files w d n) = Inr fs
     \<and> list_all2 (\<lambda>file df. fst (read_and_format_data lib w file) = Inr df) fs dfs
     \<and> pd_concat dfs = Inr df \<and> t = apply_losses k1 k2 df"
proof -
  let ?w1 = "snd (check_file_processing w (output_file w n))"
  have "fst (process_files lib ?w1 d n k1 k2 sd) = Inr t"
    using assms compile_data_fresh by metis
  from process_files_Inr[OF this] obtain fs dfs df where
    fs: "fst (list_files ?w1 d n) = Inr fs"
    and dfs: "list_all2 (\<lambda>file df. fst (read_and_format_data lib ?w1 file) = Inr df) fs dfs"
    and df: "pd_concat dfs = Inr df" and t: "t = apply_losses k1 k2 df"
    by blast
  have "fst (list_files w d n) = Inr fs"
    using fs list_files_fst_cong[of ?w1 d w n] by (simp add: check_world)
  moreover have "list_all2 (\<lambda>file df. fst (read_and_format_data lib w file) = Inr df) fs dfs"
    by (rule list_all2_read_cong[OF dfs]) (simp add: check_world)
  ultimately show ?thesis using df t by blast
qed

lemma fresh_compile_complete:
  assumes c: "fst (check_file_processing w (output_file w n)) = Inr True"
    and fs: "fst (list_files w d n) = Inr fs"
    and dfs: "list_all2 (\<lambda>file df. fst (read_and_format_data lib w file) = Inr df) fs dfs"
    and df: "pd_concat dfs = Inr df"
  shows "fst (compile_data lib w d n k1 k2 False) = Inr (apply_losses k1 k2 df)"
    and "fst (compile_data lib w d n k1 k2 True) = Inr (apply_losses k1 k2 df)
         \<or> (\<exists>p. fst (compile_data lib w d n k1 k2 True) = Inl (OSError p))"
proof -
  let ?w1 = "snd (check_file_processing w (output_file w n))"
  have fs1: "fst (list_files ?w1 d n) = Inr fs"
    using fs list_files_fst_cong[of ?w1 d w n] by (simp add: check_world)
  have dfs1: "list_all2 (\<lambda>file df. fst (read_and_format_data lib ?w1 file) = Inr df) fs dfs"
    by (rule list_all2_read_cong[OF dfs]) (simp add: check_world)
  show "fst (compile_data lib w d n k1 k2 False) = Inr (apply_losses k1 k2 df)"
    using process_files_complete(1)[OF fs1 dfs1 df] compile_data_fresh[OF c] by simp
  show "fst (compile_data lib w d n k1 k2 True) = Inr (apply_losses k1 k2 df)
         \<or> (\<exists>p. fst (compile_data lib w d n k1 k2 True) = Inl (OSError p))"
    using process_files_complete(2)[OF fs1 dfs1 df] compile_data_fresh[OF c] by simp
qed

subsection \<open>Scaling and the columns of a concatenation\<close>

lemma times_scaling_law: "times ((1 - k1) * (1 - k2)) c = scaling_law k1 k2 c"
  by (cases c) (simp_all add: mult.assoc)

lemma apply_losses_scaling:
  "columns (apply_losses k1 k2 df) = columns df"
  "rows (apply_losses k1 k2 df) = map (\<lambda>(l, cs). (l, map (scaling_law k1 k2) cs)) (rows df)"
  by (simp_all add: apply_losses_def map_cells_def times_scaling_law[abs_def])

lemma reindex_row_cell_under:
  "reindex_row old new cs = map (cell_under old cs) new"
proof -
  have "(case map_of (zip old cs) c of Some v \<Rightarrow> v | None \<Rightarrow> NaN) = cell_under old cs c" for c
    by (induction old cs c rule: cell_under.induct) simp_all
  then show ?thesis by (simp add: reindex_row_def)
qed

lemma first_occurrences_set:
  "distinct (first_occurrences xs)" "set (first_occurrences xs) = set xs"
  by (simp_all add: first_occurrences_def)

lemma pd_concat_same:
  assumes "pd_concat dfs = Inr df"
    and "list_all (\<lambda>d. columns d = columns (hd dfs)) dfs"
  shows "columns df = columns (hd dfs) \<and> rows df = concat (map rows dfs)"
  using assms by (cases dfs) (auto simp: pd_concat_def split: if_splits)

lemma pd_concat_mixed:
  assumes "pd_concat dfs = Inr df"
    and "\<not> list_all (\<lambda>d. columns d = columns (hd dfs)) dfs"
  shows "distinct (columns df) \<and> set (columns df) = (\<Union>d \<in> set dfs. set (columns d))
       \<and> rows df = concat (map (\<lambda>d. map (\<lambda>(l, cs). (l, map (cell_under (columns d) cs) (columns df)))
                                        (rows d)) dfs)"
proof (cases dfs)
  case Nil
  then show ?thesis using assms by (simp add: pd_concat_def)
next
  case (Cons d0 rest)
  let ?cols = "first_occurrences (concat (map columns dfs))"
  have ns: "\<not> list_all (\<lambda>d. columns d = columns d0) rest" using assms(2) Cons by simp
  then have df: "df = \<lparr>columns = ?cols,
      rows = concat (map (\<lambda>d. map (\<lambda>(l, cs). (l, reindex_row (columns d) ?cols cs)) (rows d)) dfs)\<rparr>"
    using assms(1) Cons by (simp add: pd_concat_def Let_def split: if_splits)
  have "columns df = ?cols" using df by simp
  moreover have "rows df = concat (map (\<lambda>d. map (\<lambda>(l, cs). (l, map (cell_under (columns d) cs) ?cols))
                                        (rows d)) dfs)"
    using df by (simp add: reindex_row_cell_under)
  ultimately show ?thesis by (simp add: first_occurrences_set)
qed

lemma scale_concat:
  "map (\<lambda>(l, cs). (l, map g cs)) (concat (map (\<lambda>d. map (\<lambda>(l, cs). (l, h d cs)) (rows d)) dfs))
     = concat (map (\<lambda>d. map (\<lambda>(l, cs). (l, map g (h d cs))) (rows d)) dfs)"
  by (induction dfs) (auto split: prod.splits)

subsection \<open>The output directory and the persisted file\<close>

lemma path_split_join:
  assumes "X \<noteq> []" and "last X \<noteq> CHR ''/''" and "CHR ''/'' \<notin> set t"
  shows "path_split (X @ ''/'' @ t) = (X, t)"
proof -
  let ?P = "\<lambda>c. c \<noteq> CHR ''/''"
  have r: "rev (X @ ''/'' @ t) = rev t @ CHR ''/'' # rev X" by simp
  have tw: "takeWhile ?P (rev t @ CHR ''/'' # rev X) = rev t"
    using assms(3) by (subst takeWhile_append2) auto
  have dw: "dropWhile ?P (rev t @ CHR ''/'' # rev X) = CHR ''/'' # rev X"
    using assms(3) by (subst dropWhile_append2) auto
  have "last X \<in> set X" using assms(1) by simp
  then have f: "filter ?P (X @ ''/'') \<noteq> []"
    using assms(2) by (auto simp: filter_empty_conv)
  obtain a as where ra: "rev X = a # as" using assms(1) by (cases "rev X") auto
  then have "a = last X" by (metis hd_rev list.sel(1))
  then have "a \<noteq> CHR ''/''" using assms(2) by simp
  then have "dropWhile (\<lambda>c. c = CHR ''/'') (rev X) = rev X"
    unfolding ra by simp
  then have d2: "dropWhile (\<lambda>c. c = CHR ''/'') (CHR ''/'' # rev X) = rev X"
    by simp
  show ?thesis
    unfolding path_split_def r tw dw Let_def using f d2 by simp
qed

lemma split_name_output_dir:
  "split_name (output_dir w) = (path_join (cwd w) ''data'', ''output'')"
proof -
  let ?X = "path_join (cwd w) ''data''"
  have X: "?X \<noteq> []" "last ?X \<noteq> CHR ''/''" by (auto simp: path_join_def)
  then have "output_dir w = ?X @ ''/'' @ ''output''"
    by (simp add: output_dir_def path_join_def[of ?X])
  moreover have "path_split (?X @ ''/'' @ ''output'') = (?X, ''output'')"
    by (rule path_split_join[OF X]) simp
  ultimately show ?thesis by (simp add: split_name_def)
qed

lemma makedirs_is_dir:
  assumes "makedirs w name = Inr w'" and "snd (split_name name) \<noteq> ''.''"
  shows "is_dir w' name"
proof -
  from assms obtain w1 where "mkdir w1 name = Inr w' \<or> (w' = w1 \<and> is_dir w1 name)"
    by (subst (asm) makedirs.simps) (auto split: sum.splits if_splits)
  then show ?thesis
    by (auto simp: mkdir_def Let_def is_dir_def split: prod.splits if_splits)
qed

lemma makedirs_existing:
  assumes "is_dir w (output_dir w)" and "path_exists w (path_join (cwd w) ''data'')"
  shows "makedirs w (output_dir w) = Inr w"
proof -
  have "path_exists w (output_dir w)" using assms(1) by (simp add: is_dir_def path_exists_def)
  then have "mkdir w (output_dir w) = Inl (OSError (output_dir w))"
    by (simp add: mkdir_def Let_def split: prod.splits)
  then show ?thesis
    using assms by (subst makedirs.simps) (simp add: split_name_output_dir)
qed

lemma write_file_keeps_dirs:
  assumes "write_file w name body = Inr w'" and "is_dir w p"
  shows "is_dir w' p"
  using assms
  by (auto simp: write_file_def Let_def add_entry_def is_dir_def
      split: prod.splits if_splits option.splits)

lemma check_trace:
  "\<exists>evs. trace (snd (check_file_processing w p)) = trace w @ evs
     \<and> (\<forall>q. MakeDirs q \<notin> set evs \<and> WriteFile q \<notin> set evs \<and> ListDir q \<notin> set evs
            \<and> ReadFile q \<notin> set evs)"
proof (cases "path_exists w p")
  case True
  then have "trace (snd (check_file_processing w p)) = trace w @ [Prompt prompt_text]"
    by (simp add: check_file_processing_def log_event_def Let_def split: list.splits)
  then show ?thesis by (intro exI[of _ "[Prompt prompt_text]"]) simp
next
  case False
  then show ?thesis by (intro exI[of _ "[]"]) (simp add: check_absent)
qed

lemma process_files_persisted:
  assumes "fst (process_files lib w d n k1 k2 True) = Inr t"
  shows "is_dir (snd (process_files lib w d n k1 k2 True)) (output_dir w)
     \<and> contents (snd (process_files lib w d n k1 k2 True)) (output_file w n) = Some (to_csv lib t)
     \<and> (\<exists>evs. trace (snd (process_files lib w d n k1 k2 True))
           = trace w @ evs @ [MakeDirs (output_dir w), WriteFile (output_file w n)])"
proof -
  obtain r1 w1 where l: "list_files w d n = (r1, w1)" by fastforce
  then have w1: "w1 = log_event (ListDir d) w" using list_files_snd[of w d n] by simp
  from assms l obtain fs where fs: "r1 = Inr fs"
    by (cases r1) (auto simp: process_files_def)
  obtain r2 w2 where rl: "read_loop lib w1 fs [] = (r2, w2)" by fastforce
  from assms l fs rl obtain dfs where dfs: "r2 = Inr dfs"
    by (cases r2) (auto simp: process_files_def)
  from assms l fs rl dfs obtain df where df: "pd_concat dfs = Inr df"
    by (cases "pd_concat dfs") (auto simp: process_files_def)
  from read_loop_world[of lib w1 fs "[]"] rl obtain evs where
    evs: "w2 = w1\<lparr>trace := trace w1 @ evs\<rparr>" by auto
  let ?t = "apply_losses k1 k2 df"
  let ?w3 = "log_event (MakeDirs (output_dir w)) w2"
  from assms l fs rl dfs df obtain w4 where w4: "makedirs ?w3 (output_dir w) = Inr w4"
    by (cases "makedirs ?w3 (output_dir w)") (auto simp: process_files_def Let_def)
  let ?w5 = "log_event (WriteFile (output_file w n)) w4"
  from assms l fs rl dfs df w4 obtain w6 where
    w6: "write_file ?w5 (output_file w n) (to_csv lib ?t) = Inr w6"
    by (cases "write_file ?w5 (output_file w n) (to_csv lib ?t)")
       (auto simp: process_files_def Let_def)
  have res: "process_files lib w d n k1 k2 True = (Inr ?t, w6)"
    using l fs rl dfs df w4 w6 by (simp add: process_files_def Let_def)
  then have t: "t = ?t" using assms by simp
  have "is_dir w4 (output_dir w)"
    by (rule makedirs_is_dir[OF w4]) (simp add: split_name_output_dir)
  then have "is_dir ?w5 (output_dir w)" by (simp add: is_dir_def log_event_def)
  then have a: "is_dir w6 (output_dir w)" by (rule write_file_keeps_dirs[OF w6])
  have b: "contents w6 (output_file w n) = Some (to_csv lib ?t)"
    using write_file_frame[OF w6] by simp
  have "trace w6 = trace ?w5" using write_file_frame[OF w6] by simp
  also have "\<dots> = trace w4 @ [WriteFile (output_file w n)]" by (simp add: log_event_def)
  also have "trace w4 = trace ?w3" using makedirs_frame[OF w4] by simp
  also have "\<dots> = trace w @ (ListDir d # evs) @ [MakeDirs (output_dir w)]"
    using evs w1 by (simp add: log_event_def)
  finally have c: "trace w6 = trace w @ (ListDir d # evs)
      @ [MakeDirs (output_dir w), WriteFile (output_file w n)]" by simp
  show ?thesis using a b c res t by (metis snd_conv)
qed

subsection \<open>Column lookup and ranking\<close>

lemma takeWhile_index_less:
  "x \<in> set xs \<Longrightarrow> length (takeWhile (\<lambda>c. c \<noteq> x) xs) < length xs"
  by (induction xs) auto

lemma energy_column_less:
  "''Energy'' \<in> set (columns df) \<Longrightarrow> energy_column df < length (columns df)"
  unfolding energy_column_def by (rule takeWhile_index_less)

lemma take_drop_sorted_wrt:
  assumes "sorted_wrt R xs" and "s \<in> set (take k xs)" and "y \<in> set xs" and "y \<notin> set (take k xs)"
  shows "R s y"
proof -
  have "y \<in> set (drop k xs)"
    using assms(3,4) by (metis append_take_drop_id set_append Un_iff)
  moreover have "sorted_wrt R (take k xs @ drop k xs)" using assms(1) by simp
  ultimately show ?thesis using assms(2) unfolding sorted_wrt_append by blast
qed

lemma insort_key_agree:
  "f x = g x \<Longrightarrow> (\<And>y. y \<in> set ys \<Longrightarrow> f y = g y) \<Longrightarrow>
   insort_key f x ys = insort_key g x ys"
  by (induction ys) auto

lemma sort_key_agree:
  "(\<And>x. x \<in> set xs \<Longrightarrow> f x = g x) \<Longrightarrow> sort_key f xs = sort_key g xs"
proof (induction xs)
  case Nil
  show ?case by simp
next
  case (Cons a xs)
  then have "sort_key f xs = sort_key g xs" by simp
  moreover have "insort_key f a (sort_key g xs) = insort_key g a (sort_key g xs)"
    using Cons.prems by (intro insort_key_agree) simp_all
  ultimately show ?case by simp
qed

lemma filter_positions_count:
  "length (filter (\<lambda>j. xs ! j = x) [0..<length xs]) = count_list xs x"
proof (induction xs rule: rev_induct)
  case Nil
  show ?case by simp
next
  case (snoc a xs)
  have "filter (\<lambda>j. (xs @ [a]) ! j = x) [0..<length xs] = filter (\<lambda>j. xs ! j = x) [0..<length xs]"
    by (rule filter_cong) (auto simp: nth_append)
  then show ?case using snoc by (simp add: nth_append)
qed

lemma missing_column:
  "x \<notin> set xs \<Longrightarrow> filter (\<lambda>j. xs ! j = x) [0..<length xs] = []"
  by (auto simp: filter_empty_conv)

lemma unique_column:
  assumes "count_list xs x = 1"
  shows "filter (\<lambda>j. xs ! j = x) [0..<length xs] = [length (takeWhile (\<lambda>c. c \<noteq> x) xs)]"
proof -
  let ?j = "length (takeWhile (\<lambda>c. c \<noteq> x) xs)"
  let ?f = "filter (\<lambda>j. xs ! j = x) [0..<length xs]"
  have x: "x \<in> set xs" using assms by (metis count_list_0_iff zero_neq_one)
  then have j: "?j < length xs" by (rule takeWhile_index_less)
  have at: "xs ! ?j = x" using nth_length_takeWhile[of "\<lambda>c. c \<noteq> x" xs] j by simp
  have "length ?f = 1" using assms by (simp add: filter_positions_count)
  then obtain i where i: "?f = [i]" by (cases ?f) auto
  have "?j \<in> set ?f" using j at by simp
  then show ?thesis using i by simp
qed

lemma several_columns:
  assumes "1 < count_list xs x"
  shows "\<exists>a b rest. filter (\<lambda>j. xs ! j = x) [0..<length xs] = a # b # rest"
proof -
  let ?f = "filter (\<lambda>j. xs ! j = x) [0..<length xs]"
  have "1 < length ?f" using assms by (simp add: filter_positions_count)
  then show ?thesis by (cases ?f; cases "tl ?f") auto
qed

lemma nlargest_missing:
  "column \<notin> set (columns df) \<Longrightarrow> nlargest n column df = Inl (KeyError column)"
  by (simp add: nlargest_def missing_column)

lemma nlargest_several:
  assumes "1 < count_list (columns df) column"
  shows "nlargest n column df = Inl (AttributeError ''dtype'')"
proof -
  from several_columns[OF assms] obtain a b rest where
    "filter (\<lambda>j. columns df ! j = column) [0..<length (columns df)] = a # b # rest" by blast
  then show ?thesis by (simp add: nlargest_def)
qed

lemma top_years_rows:
  assumes E: "count_list (columns data) ''Energy'' = 1"
  defines "years \<equiv> sort (remdups (map (\<lambda>(t, cs). ts_year t) (rows data)))"
  shows "\<exists>F. (\<forall>y. fst (F y) = y
              \<and> cell_at (snd (F y)) (energy_column data) = Num (yearly_energy data y))
     \<and> nlargest top_n ''Energy'' (groupby_year_sum data) =
         Inr \<lparr>columns = columns data,
              rows = take (nat top_n)
                (sort_key (\<lambda>r. - yearly_energy data (fst r)) (map F years))\<rparr>"
proof -
  let ?n = "length (columns data)"
  let ?j = "energy_column data"
  define F where "F = (\<lambda>y. (y, map (\<lambda>j. Num (sum_list (map (\<lambda>(t, cs). cell_value (cell_at cs j))
                  (filter (\<lambda>(t, cs). ts_year t = y) (rows data))))) [0..<?n]))"
  have "''Energy'' \<in> set (columns data)" using E by (metis count_list_0_iff zero_neq_one)
  then have j: "?j < ?n" by (rule energy_column_less)
  have g: "groupby_year_sum data = \<lparr>columns = columns data, rows = map F years\<rparr>"
    by (simp add: groupby_year_sum_def years_def F_def Let_def)
  have cell: "cell_at (snd (F y)) ?j = Num (yearly_energy data y)" for y
  proof -
    have u: "[0..<?n] ! ?j = ?j" using j by simp
    show ?thesis using j by (simp add: F_def cell_at_def yearly_energy_def u cong: if_cong)
  qed
  have col: "filter (\<lambda>j. columns data ! j = ''Energy'') [0..<?n] = [?j]"
    unfolding energy_column_def by (rule unique_column[OF E])
  have present: "filter (\<lambda>(l, cs). cell_at cs ?j \<noteq> NaN) (map F years) = map F years"
    using cell by (auto simp: filter_id_conv split: prod.splits) (metis cell.distinct(1) snd_conv)
  have missing: "filter (\<lambda>(l, cs). cell_at cs ?j = NaN) (map F years) = []"
    using cell by (auto simp: filter_empty_conv split: prod.splits) (metis cell.distinct(1) snd_conv)
  have key: "(\<lambda>(l, cs). - cell_value (cell_at cs ?j)) r = - yearly_energy data (fst r)"
    if "r \<in> set (map F years)" for r
    using that cell by (auto simp: F_def split: prod.splits)
  have sk: "sort_key (\<lambda>(l, cs). - cell_value (cell_at cs ?j)) (map F years)
      = sort_key (\<lambda>r. - yearly_energy data (fst r)) (map F years)"
    using key by (intro sort_key_agree) auto
  have "nlargest top_n ''Energy'' (groupby_year_sum data) =
         Inr \<lparr>columns = columns data,
              rows = take (nat top_n)
                (sort_key (\<lambda>r. - yearly_energy data (fst r)) (map F years))\<rparr>"
    unfolding g by (simp add: nlargest_def col present missing sk Let_def)
  moreover have "\<forall>y. fst (F y) = y \<and> cell_at (snd (F y)) ?j = Num (yearly_energy data y)"
    using cell by (simp add: F_def)
  ultimately show ?thesis by blast
qed

lemma column_values_unique:
  assumes "count_list (columns df) ''Energy'' = 1"
  shows "column_values ''Energy'' df = Inr (map (\<lambda>(l, cs). cell_at cs (energy_column df)) (rows df))"
  using unique_column[OF assms] by (simp add: column_values_def energy_column_def)

lemma export_figure_result:
  "fst (export_figure w filename png) = Inr () \<or> (\<exists>p. fst (export_figure w filename png) = Inl (OSError p))"
  by (auto simp: export_figure_def Let_def split: sum.splits
      dest: makedirs_error write_file_error)

subsection \<open>The installation\<close>

lemma demo_output_file [simp]:
  "output_file demo_world ''Solcast'' = ''/home/u/data/output/dados_compilados_Solcast.csv''"
  "output_file (cached_world a) ''Solcast'' = ''/home/u/data/output/dados_compilados_Solcast.csv''"
  by (simp_all add: output_file_def output_dir_def path_join_def demo_world_def cached_world_def)

lemmas model_defs = compile_data_def process_files_def check_file_processing_def
  list_files_def read_and_format_data_def format_data_def rename_kW_def map_cells_def
  pd_concat_def apply_losses_def output_file_def output_dir_def path_join_def
  path_exists_def is_dir_def log_event_def write_file_def mkdir_def add_entry_def
  split_name_def path_split_def

lemmas demo_defs = demo_world_def demo_lib_def file_a_def file_b_def file_m_def demo_compiled_def
  cached_world_def cached_table_def

lemma demo_split_output: "split_name ''/home/u/data/output'' = (''/home/u/data'', ''output'')"
  "split_name ''/home/u/data'' = (''/home/u'', ''data'')"
  "path_split ''/home/u/data/output/dados_compilados_Solcast.csv''
     = (''/home/u/data/output'', ''dados_compilados_Solcast.csv'')"
  by (simp_all add: split_name_def path_split_def)

lemma demo_format_a:
  "fst (read_and_format_data demo_lib demo_world ''/home/u/in/Solcast_a.csv'') =
     Inr \<lparr>columns = [''Energy''],
          rows = [(stamp 2020 1 1 0, [Num 0]), (stamp 2020 1 1 1, [Num (5 / 2)])]\<rparr>"
  by (simp add: read_and_format_data_def demo_world_def demo_lib_def file_a_def format_data_def
      rename_kW_def map_cells_def Let_def)

lemma demo_check_fresh:
  "fst (check_file_processing demo_world (output_file demo_world ''Solcast'')) = Inr True"
  by (simp add: check_file_processing_def path_exists_def) (simp add: demo_world_def)

lemma demo_run_False:
  "fst (compile_data demo_lib demo_world ''/home/u/in'' ''Solcast'' 0.003 0.01 False)
     = Inr demo_compiled"
  by (simp add: model_defs demo_defs Let_def)

lemma demo_run_True:
  "fst (compile_data demo_lib demo_world ''/home/u/in'' ''Solcast'' 0.003 0.01 True)
     = Inr demo_compiled"
  by (simp add: compile_data_def process_files_def check_file_processing_def
      list_files_def read_and_format_data_def format_data_def rename_kW_def map_cells_def
      pd_concat_def apply_losses_def output_file_def output_dir_def path_join_def
      path_exists_def is_dir_def log_event_def write_file_def mkdir_def add_entry_def
      demo_split_output makedirs.simps demo_defs Let_def)

lemma demo_after_first_run:
  fixes w2 defines "w2 \<equiv> demo_rerun_world"
  shows "cwd w2 = ''/home/u''" "stdin w2 = [code_points ''s'']"
    "dirs w2 ''/home/u/in'' = Some [''Solcast_a.csv'', ''notes.txt'', ''Solcast_b.csv'']"
    "dirs w2 ''/home/u/data/output'' = Some [''dados_compilados_Solcast.csv'']"
    "contents w2 ''/home/u/in/Solcast_a.csv'' = Some ''A''"
    "contents w2 ''/home/u/in/notes.txt'' = Some ''hello''"
    "contents w2 ''/home/u/in/Solcast_b.csv'' = Some ''B''"
    "contents w2 ''/home/u/data/output/dados_compilados_Solcast.csv'' = Some '',Energy''"
    "trace w2 = [ListDir ''/home/u/in'', ReadFile ''/home/u/in/Solcast_a.csv'',
       ReadFile ''/home/u/in/Solcast_b.csv'', MakeDirs ''/home/u/data/output'',
       WriteFile ''/home/u/data/output/dados_compilados_Solcast.csv'']"
    "dirs w2 ''/home/u/data'' = Some [''output'']"
  unfolding w2_def demo_rerun_world_def
  by (simp_all add: compile_data_def process_files_def check_file_processing_def
      list_files_def read_and_format_data_def format_data_def rename_kW_def map_cells_def
      pd_concat_def apply_losses_def output_file_def output_dir_def path_join_def
      path_exists_def is_dir_def log_event_def write_file_def mkdir_def add_entry_def
      demo_split_output makedirs.simps demo_defs Let_def)

lemma demo_long_s_run:
  fixes w2 defines "w2 \<equiv> snd (compile_data demo_lib (cached_world [[0x17F]]) ''/home/u/in''
      ''Solcast'' 0.003 0.01 True)"
  shows "fst (compile_data demo_lib (cached_world [[0x17F]]) ''/home/u/in'' ''Solcast'' 0.003 0.01
            True) = Inr demo_compiled"
    "trace w2 = [Prompt prompt_text, ListDir ''/home/u/in'', ReadFile ''/home/u/in/Solcast_a.csv'',
       ReadFile ''/home/u/in/Solcast_b.csv'', MakeDirs ''/home/u/data/output'',
       WriteFile ''/home/u/data/output/dados_compilados_Solcast.csv'']"
    "contents w2 ''/home/u/data/output/dados_compilados_Solcast.csv'' = Some '',Energy''"
  unfolding w2_def
  by (simp_all add: compile_data_def process_files_def check_file_processing_def
      list_files_def read_and_format_data_def format_data_def rename_kW_def map_cells_def
      pd_concat_def apply_losses_def output_file_def output_dir_def path_join_def
      path_exists_def is_dir_def log_event_def write_file_def mkdir_def add_entry_def
      demo_split_output makedirs.simps demo_defs Let_def upper_def upper_point_def
      code_points_def)

lemma demo_check_again:
  "fst (check_file_processing demo_rerun_world (output_file demo_rerun_world ''Solcast''))
     = Inr True"
proof -
  have o: "output_file demo_rerun_world ''Solcast''
      = ''/home/u/data/output/dados_compilados_Solcast.csv''"
    by (simp add: output_file_def output_dir_def path_join_def demo_after_first_run(1))
  have e: "path_exists demo_rerun_world (output_file demo_rerun_world ''Solcast'')"
    unfolding o by (simp add: path_exists_def demo_after_first_run(8))
  show ?thesis
    using check_answer[OF e demo_after_first_run(2)] by simp
qed

lemma demo_top_year:
  "fst (plot_top_years demo_savefig demo_world demo_compiled 1 False) = Inr demo_top_chart"
  by (simp add: plot_top_years_def groupby_year_sum_def nlargest_def demo_compiled_def
      stamp_def cell_at_def plot_barh_def column_values_def demo_top_chart_def Let_def)

lemma demo_top_year_saved:
  "fst (plot_top_years demo_savefig demo_world demo_compiled 1 True) = Inr demo_top_chart"
  "contents (snd (plot_top_years demo_savefig demo_world demo_compiled 1 True))
     ''/home/u/images/top_1_anos.png'' = Some ''PNG#''"
  by (simp_all add: plot_top_years_def groupby_year_sum_def nlargest_def demo_compiled_def
      stamp_def cell_at_def plot_barh_def column_values_def demo_top_chart_def Let_def
      export_figure_def str_int_def decimal.simps path_join_def makedirs.simps mkdir_def
      split_name_def path_split_def write_file_def add_entry_def is_dir_def path_exists_def
      log_event_def demo_world_def demo_savefig_def)

lemma demo_years: "years_of demo_compiled = {2020, 2021}"
  by (auto simp: years_of_def demo_compiled_def stamp_def)

lemma demo_listed:
  "fst (list_files demo_world ''/home/u/in'' ''Solcast'')
     = Inr [''/home/u/in/Solcast_a.csv'', ''/home/u/in/Solcast_b.csv'']"
  "fst (list_files mixed_world ''/home/u/in'' ''Solcast'')
     = Inr [''/home/u/in/Solcast_a.csv'', ''/home/u/in/Solcast_m.csv'']"
  by (simp_all add: list_files_def demo_world_def mixed_world_def path_join_def)

lemma demo_formatted:
  "fst (read_and_format_data demo_lib demo_world ''/home/u/in/Solcast_a.csv'') = Inr formatted_a"
  "fst (read_and_format_data demo_lib demo_world ''/home/u/in/Solcast_b.csv'') = Inr formatted_b"
  "fst (read_and_format_data demo_lib mixed_world ''/home/u/in/Solcast_a.csv'') = Inr formatted_a"
  "fst (read_and_format_data demo_lib mixed_world ''/home/u/in/Solcast_m.csv'') = Inr formatted_m"
  by (simp_all add: read_and_format_data_def demo_world_def mixed_world_def demo_lib_def
      file_a_def file_b_def file_m_def format_data_def rename_kW_def map_cells_def Let_def
      formatted_a_def formatted_b_def formatted_m_def)

lemma mixed_run:
  "fst (check_file_processing mixed_world (output_file mixed_world ''Solcast'')) = Inr True"
  "fst (compile_data demo_lib mixed_world ''/home/u/in'' ''Solcast'' 0.003 0.01 False)
     = Inr mixed_compiled"
  "dirs mixed_world ''/home/u/in'' = Some [''Solcast_a.csv'', ''Solcast_m.csv'']"
  by (simp_all add: model_defs mixed_world_def demo_lib_def file_a_def file_m_def
      mixed_compiled_def first_occurrences_def reindex_row_def Let_def)

section \<open>The File Locator\<close>

text \<open>
  C4, as the specification words it, would have \<^verbatim>\<open>list_files\<close> select on the file
  name. The source tests the joined path: in a directory whose own path contains the tag,
  an entry is returned although its name does not contain it.
\<close>

theorem list_files_name_filter_counterexample:
  "dirs tagged_world ''Solcast'' = Some [''a.csv'']
   \<and> \<not> str_in ''Solcast'' ''a.csv''
   \<and> fst (list_files tagged_world ''Solcast'' ''Solcast'') = Inr [''Solcast/a.csv'']"
  by (simp add: tagged_world_def list_files_def path_join_def)

text \<open>
  C4, amended: \<^verbatim>\<open>list_files\<close> returns exactly the joined paths
  \<^verbatim>\<open>os.path.join(directory, entry)\<close> that contain the filter string, in listing order,
  hence the empty list when no joined path contains it; when the directory path does not
  contain the filter and the filter has no separator, these are exactly the entries whose
  file name contains the filter.
\<close>

theorem list_files_joined_paths:
  assumes "dirs w directory = Some names"
  shows "fst (list_files w directory dataset_name) =
           Inr (filter (str_in dataset_name) (map (path_join directory) names))
       \<and> (list_all (\<lambda>file. \<not> str_in dataset_name (path_join directory file)) names \<longrightarrow>
            fst (list_files w directory dataset_name) = Inr [])
       \<and> (\<not> str_in dataset_name directory \<and> CHR ''/'' \<notin> set dataset_name \<longrightarrow>
            fst (list_files w directory dataset_name) =
              Inr (map (path_join directory) (filter (str_in dataset_name) names)))"
proof (intro conjI impI)
  show a: "fst (list_files w directory dataset_name) =
           Inr (filter (str_in dataset_name) (map (path_join directory) names))"
    using assms by (rule list_files_fst)
  {
    assume "list_all (\<lambda>file. \<not> str_in dataset_name (path_join directory file)) names"
    then have "filter (str_in dataset_name) (map (path_join directory) names) = []"
      by (induction names) auto
    then show "fst (list_files w directory dataset_name) = Inr []" using a by simp
  }
  {
    assume h: "\<not> str_in dataset_name directory \<and> CHR ''/'' \<notin> set dataset_name"
    have "filter (str_in dataset_name) (map (path_join directory) names)
        = map (path_join directory) (filter (str_in dataset_name) names)"
      using h by (induction names) (auto simp: str_in_path_join)
    then show "fst (list_files w directory dataset_name) =
              Inr (map (path_join directory) (filter (str_in dataset_name) names))"
      using a by simp
  }
qed

text \<open>
  C4, witness: in \<open>/home/u/in\<close> the tag \<open>Solcast\<close> selects the two record files in
  listing order, and the tag \<open>Meteo\<close> selects nothing.
\<close>

theorem list_files_joined_paths_witness:
  "dirs demo_world ''/home/u/in'' = Some [''Solcast_a.csv'', ''notes.txt'', ''Solcast_b.csv'']
   \<and> \<not> str_in ''Solcast'' ''/home/u/in'' \<and> CHR ''/'' \<notin> set ''Solcast''
   \<and> fst (list_files demo_world ''/home/u/in'' ''Solcast'') =
         Inr [''/home/u/in/Solcast_a.csv'', ''/home/u/in/Solcast_b.csv'']
   \<and> list_all (\<lambda>file. \<not> str_in ''Meteo'' (path_join ''/home/u/in'' file))
         [''Solcast_a.csv'', ''notes.txt'', ''Solcast_b.csv'']
   \<and> fst (list_files demo_world ''/home/u/in'' ''Meteo'') = Inr []"
proof -
  have d: "dirs demo_world ''/home/u/in'' = Some [''Solcast_a.csv'', ''notes.txt'', ''Solcast_b.csv'']"
    by (simp add: demo_world_def)
  have n: "\<not> str_in ''Solcast'' ''/home/u/in'' \<and> CHR ''/'' \<notin> set ''Solcast''"
    by simp
  have m: "list_all (\<lambda>file. \<not> str_in ''Meteo'' (path_join ''/home/u/in'' file))
         [''Solcast_a.csv'', ''notes.txt'', ''Solcast_b.csv'']"
    by (simp add: path_join_def)
  show ?thesis
    using list_files_joined_paths [OF d, of "''Solcast''"]
      list_files_joined_paths [OF d, of "''Meteo''"] d n m
    by (simp add: path_join_def)
qed

section \<open>The interactive gate\<close>

text \<open>
  C6, as the specification words it, has exactly \<open>S\<close> and \<open>N\<close> in either case accepted.
  The source compares \<^verbatim>\<open>user_response.upper()\<close>, and the upper-casing of \<open>U+017F\<close> is
  \<open>S\<close>: that answer, which is none of \<open>S\<close>, \<open>s\<close>, \<open>N\<close>, \<open>n\<close>, means reprocess.
\<close>

theorem long_s_is_accepted_counterexample:
  "[0x17F] \<noteq> code_points ''S'' \<and> [0x17F] \<noteq> code_points ''s''
   \<and> [0x17F] \<noteq> code_points ''N'' \<and> [0x17F] \<noteq> code_points ''n''
   \<and> path_exists (cached_world [[0x17F]]) ''/home/u/data/output/dados_compilados_Solcast.csv''
   \<and> fst (check_file_processing (cached_world [[0x17F]])
          ''/home/u/data/output/dados_compilados_Solcast.csv'') = Inr True"
  by (simp add: code_points_answers check_file_processing_def path_exists_def cached_world_def
      log_event_def upper_def upper_point_def Let_def)

text \<open>
  C6, amended: when the output file exists, the answers whose upper-casing is \<open>S\<close>, which
  are \<open>S\<close>, \<open>s\<close> and \<open>U+017F\<close>, mean reprocess, the answers \<open>N\<close> and \<open>n\<close> mean
  reuse, and every other answer raises the \<^verbatim>\<open>ValueError\<close> with the source's message.
\<close>

theorem check_file_processing_answers:
  assumes "path_exists w file_path" and "stdin w = user_response # rest"
  shows "fst (check_file_processing w file_path) =
     (if user_response = code_points ''S'' \<or> user_response = code_points ''s''
         \<or> user_response = [0x17F] then Inr True
      else if user_response = code_points ''N'' \<or> user_response = code_points ''n''
      then Inr False
      else Inl (ValueError invalid_answer_text))"
  using check_answer[OF assms] by simp

text \<open>
  C6, witness: with the compiled file present, \<open>s\<close> reprocesses, \<open>N\<close> reuses and
  \<open>sim\<close> is rejected.
\<close>

theorem check_file_processing_answers_witness:
  "path_exists (cached_world [code_points ''s''])
     ''/home/u/data/output/dados_compilados_Solcast.csv''
   \<and> fst (check_file_processing (cached_world [code_points ''s''])
          ''/home/u/data/output/dados_compilados_Solcast.csv'') = Inr True
   \<and> fst (check_file_processing (cached_world [code_points ''N''])
          ''/home/u/data/output/dados_compilados_Solcast.csv'') = Inr False
   \<and> fst (check_file_processing (cached_world [code_points ''sim''])
          ''/home/u/data/output/dados_compilados_Solcast.csv'')
        = Inl (ValueError invalid_answer_text)"
proof -
  have e: "path_exists (cached_world a) ''/home/u/data/output/dados_compilados_Solcast.csv''" for a
    by (simp add: path_exists_def cached_world_def)
  have s: "stdin (cached_world [a]) = a # []" for a
    by (simp add: cached_world_def)
  have n: "code_points ''sim'' \<noteq> code_points ''S''" "code_points ''sim'' \<noteq> code_points ''s''"
    "code_points ''sim'' \<noteq> [0x17F]" "code_points ''sim'' \<noteq> code_points ''N''"
    "code_points ''sim'' \<noteq> code_points ''n''"
    by (simp_all add: code_points_def)
  show ?thesis
    using check_file_processing_answers [OF e s, of "code_points ''s''"]
      check_file_processing_answers [OF e s, of "code_points ''N''"]
      check_file_processing_answers [OF e s, of "code_points ''sim''"] e n answers_differ
    by simp
qed

text \<open>
  C7, as the specification words it, has every answer that is neither \<open>S\<close> nor \<open>N\<close> in
  either case raise before anything is read or written. The answer \<open>U+017F\<close> is none of
  the four, yet the compilation runs: the directory is listed, both record files are read
  and the compiled file is written anew.
\<close>

theorem long_s_compiles_counterexample:
  "[0x17F] \<notin> {code_points ''S'', code_points ''s'', code_points ''N'', code_points ''n''}
   \<and> path_exists (cached_world [[0x17F]]) (output_file (cached_world [[0x17F]]) ''Solcast'')
   \<and> fst (compile_data demo_lib (cached_world [[0x17F]]) ''/home/u/in'' ''Solcast'' 0.003 0.01
            True) = Inr demo_compiled
   \<and> trace (snd (compile_data demo_lib (cached_world [[0x17F]]) ''/home/u/in'' ''Solcast'' 0.003
            0.01 True))
        = [Prompt prompt_text, ListDir ''/home/u/in'', ReadFile ''/home/u/in/Solcast_a.csv'',
           ReadFile ''/home/u/in/Solcast_b.csv'', MakeDirs ''/home/u/data/output'',
           WriteFile ''/home/u/data/output/dados_compilados_Solcast.csv'']
   \<and> contents (cached_world [[0x17F]]) ''/home/u/data/output/dados_compilados_Solcast.csv''
        = Some ''C''
   \<and> contents (snd (compile_data demo_lib (cached_world [[0x17F]]) ''/home/u/in'' ''Solcast''
            0.003 0.01 True)) ''/home/u/data/output/dados_compilados_Solcast.csv''
        = Some '',Energy''"
proof -
  have n: "[0x17F] \<notin> {code_points ''S'', code_points ''s'', code_points ''N'', code_points ''n''}"
    by (simp add: code_points_answers)
  have e: "path_exists (cached_world [[0x17F]]) (output_file (cached_world [[0x17F]]) ''Solcast'')"
    by (simp add: path_exists_def) (simp add: cached_world_def)
  have c: "contents (cached_world [[0x17F]]) ''/home/u/data/output/dados_compilados_Solcast.csv''
        = Some ''C''"
    by (simp add: cached_world_def)
  show ?thesis using n e c demo_long_s_run by simp
qed

text \<open>
  C7, amended: on an answer whose upper-casing is neither \<open>S\<close> nor \<open>N\<close>, that is any
  answer other than \<open>S\<close>, \<open>s\<close>, \<open>U+017F\<close>, \<open>N\<close> and \<open>n\<close>, \<^verbatim>\<open>compile_data\<close> raises
  the \<^verbatim>\<open>ValueError\<close> and the world differs from the initial one only in the consumed
  answer and the logged prompt: no directory was listed, no file read or written, no
  directory created.
\<close>

theorem invalid_answer_changes_nothing:
  assumes "path_exists w (output_file w dataset_name)"
    and "stdin w = user_response # rest"
    and "user_response \<notin> {code_points ''S'', code_points ''s'', [0x17F],
                            code_points ''N'', code_points ''n''}"
  shows "compile_data lib w directory dataset_name transformer_loss transmission_loss save_data =
     (Inl (ValueError invalid_answer_text),
      w\<lparr>stdin := rest, trace := trace w @ [Prompt prompt_text]\<rparr>)"
  using assms(3) check_answer[OF assms(1,2)] by (simp add: compile_data_def)

text \<open>
  C7, witness: the answer \<open>X\<close> with the compiled file present, persisting requested.
\<close>

theorem invalid_answer_changes_nothing_witness:
  "path_exists (cached_world [code_points ''X''])
     (output_file (cached_world [code_points ''X'']) ''Solcast'')
   \<and> code_points ''X'' \<notin> {code_points ''S'', code_points ''s'', [0x17F],
                            code_points ''N'', code_points ''n''}
   \<and> fst (compile_data demo_lib (cached_world [code_points ''X'']) ''/home/u/in'' ''Solcast''
            0.003 0.01 True) = Inl (ValueError invalid_answer_text)
   \<and> dirs (snd (compile_data demo_lib (cached_world [code_points ''X'']) ''/home/u/in''
            ''Solcast'' 0.003 0.01 True)) = dirs (cached_world [code_points ''X''])
   \<and> contents (snd (compile_data demo_lib (cached_world [code_points ''X'']) ''/home/u/in''
            ''Solcast'' 0.003 0.01 True)) = contents (cached_world [code_points ''X''])
   \<and> trace (snd (compile_data demo_lib (cached_world [code_points ''X'']) ''/home/u/in''
            ''Solcast'' 0.003 0.01 True)) = [Prompt prompt_text]"
proof -
  have e: "path_exists (cached_world [code_points ''X''])
      (output_file (cached_world [code_points ''X'']) ''Solcast'')"
    by (simp add: path_exists_def) (simp add: cached_world_def)
  have s: "stdin (cached_world [code_points ''X'']) = code_points ''X'' # []"
    by (simp add: cached_world_def)
  have n: "code_points ''X'' \<notin> {code_points ''S'', code_points ''s'', [0x17F],
                            code_points ''N'', code_points ''n''}"
    by (simp add: code_points_def)
  show ?thesis
    using invalid_answer_changes_nothing [OF e s n, of demo_lib "''/home/u/in''" "0.003" "0.01" True]
      e n
    by (simp add: cached_world_def)
qed

text \<open>
  C5: when the output file exists and the answer is \<open>N\<close> or \<open>n\<close>,
  \<^verbatim>\<open>compile_data\<close> returns what \<^verbatim>\<open>pd.read_csv(output_file, index_col=0, parse_dates=True)\<close>
  returns and does nothing else: the result does not depend on the directory, the loss
  factors or the persist flag, and no source file is listed or read.
\<close>

theorem reuse_answer_short_circuits:
  assumes "path_exists w (output_file w dataset_name)"
    and "stdin w = user_response # rest"
    and "user_response = code_points ''N'' \<or> user_response = code_points ''n''"
  shows "compile_data lib w directory dataset_name transformer_loss transmission_loss save_data =
     (case contents w (output_file w dataset_name) of
        None \<Rightarrow> Inl (OSError (output_file w dataset_name))
      | Some txt \<Rightarrow> read_csv_dates lib txt,
      w\<lparr>stdin := rest,
        trace := trace w @ [Prompt prompt_text, ReadFile (output_file w dataset_name)]\<rparr>)"
  using assms(3) check_answer[OF assms(1,2)] answers_differ
  by (auto simp: compile_data_def log_event_def Let_def split: option.splits)

text \<open>
  C5, witness: the answer \<open>n\<close> returns the cached table although both losses are
  one half.
\<close>

theorem reuse_answer_short_circuits_witness:
  "path_exists (cached_world [code_points ''n'']) (output_file (cached_world [code_points ''n'']) ''Solcast'')
   \<and> fst (compile_data demo_lib (cached_world [code_points ''n'']) ''/home/u/in'' ''Solcast'' 0.5 0.5 True)
       = Inr cached_table
   \<and> trace (snd (compile_data demo_lib (cached_world [code_points ''n'']) ''/home/u/in'' ''Solcast'' 0.5 0.5 True))
       = [Prompt prompt_text, ReadFile ''/home/u/data/output/dados_compilados_Solcast.csv'']"
proof -
  have e: "path_exists (cached_world [code_points ''n'']) (output_file (cached_world [code_points ''n'']) ''Solcast'')"
    by (simp add: path_exists_def) (simp add: cached_world_def)
  have s: "stdin (cached_world [code_points ''n'']) = code_points ''n'' # []"
    by (simp add: cached_world_def)
  have c: "contents (cached_world [code_points ''n'']) ''/home/u/data/output/dados_compilados_Solcast.csv'' = Some ''C''"
    by (simp add: cached_world_def)
  show ?thesis
    using reuse_answer_short_circuits [OF e s, of demo_lib "''/home/u/in''" "0.5" "0.5" True] e c
    by (simp add: demo_lib_def) (simp add: cached_world_def)
qed

text \<open>
  C10: when the output file does not exist, \<^verbatim>\<open>check_file_processing\<close> returns
  \<open>True\<close> and leaves the world as it is, so \<^verbatim>\<open>compile_data\<close> is the fresh
  compilation: \<open>stdin\<close> is not read and no prompt is issued.
\<close>

theorem first_run_does_not_prompt:
  assumes "\<not> path_exists w (output_file w dataset_name)"
  shows "check_file_processing w (output_file w dataset_name) = (Inr True, w)
     \<and> compile_data lib w directory dataset_name transformer_loss transmission_loss save_data =
         process_files lib w directory dataset_name transformer_loss transmission_loss save_data
     \<and> stdin (snd (compile_data lib w directory dataset_name transformer_loss transmission_loss
                    save_data)) = stdin w
     \<and> (\<exists>evs. trace (snd (compile_data lib w directory dataset_name transformer_loss
                    transmission_loss save_data)) = trace w @ evs \<and> (\<forall>t. Prompt t \<notin> set evs))"
proof -
  have c: "check_file_processing w (output_file w dataset_name) = (Inr True, w)"
    using assms by (rule check_absent)
  then have e: "compile_data lib w directory dataset_name transformer_loss transmission_loss save_data =
         process_files lib w directory dataset_name transformer_loss transmission_loss save_data"
    by (simp add: compile_data_def)
  from process_files_world[of lib w directory dataset_name transformer_loss transmission_loss save_data]
  show ?thesis using c e by auto
qed

text \<open>
  C10, witness: the first run in \<open>demo_world\<close> leaves the waiting answer unread.
\<close>

theorem first_run_does_not_prompt_witness:
  "\<not> path_exists demo_world (output_file demo_world ''Solcast'')
   \<and> check_file_processing demo_world (output_file demo_world ''Solcast'') = (Inr True, demo_world)
   \<and> stdin (snd (compile_data demo_lib demo_world ''/home/u/in'' ''Solcast'' 0.003 0.01 True))
       = [code_points ''s'']"
proof -
  have e: "\<not> path_exists demo_world (output_file demo_world ''Solcast'')"
    by (simp add: path_exists_def) (simp add: demo_world_def)
  have s: "stdin demo_world = [code_points ''s'']"
    by (simp add: demo_world_def)
  note t = first_run_does_not_prompt [OF e, of demo_lib "''/home/u/in''" "0.003" "0.01" True]
  from t have a: "check_file_processing demo_world (output_file demo_world ''Solcast'')
      = (Inr True, demo_world)" by blast
  from t have b: "stdin (snd (compile_data demo_lib demo_world ''/home/u/in'' ''Solcast'' 0.003 0.01
      True)) = stdin demo_world" by blast
  show ?thesis using e a b s by simp
qed

section \<open>The Record Parser\<close>

text \<open>
  C2: for every file that parses, each numeric cell of the formatted table is
  \<open>max 0 (raw / 1000)\<close> of the raw cell at the same place, in every column and every row
  (a missing value stays missing); the only change to the columns is the renaming of
  \<open>kW\<close>.
\<close>

theorem formatted_cells_follow_clamping_law:
  assumes "fst (read_and_format_data lib w file_path) = Inr df"
  shows "\<exists>txt raw. contents w file_path = Some txt \<and> read_csv_raw lib txt = Inr raw
      \<and> columns df = map (\<lambda>c. if c = ''kW'' then ''Energy'' else c) (columns raw)
      \<and> map snd (rows df) = map (map clamping_law) (map snd (rows raw))"
proof -
  from assms obtain body df0 where "contents w file_path = Some body"
    "read_csv_raw lib body = Inr df0" "format_data lib df0 = Inr df"
    by (auto simp: read_and_format_data_def Let_def split: option.splits sum.splits)
  then show ?thesis using format_data_Inr by blast
qed

text \<open>
  C2, witness: the first record file holds \<open>-5\<close> and \<open>2500\<close>; the formatted cells are
  \<open>0\<close>, not \<open>-0.005\<close>, and \<open>2.5\<close>.
\<close>

theorem formatted_cells_follow_clamping_law_witness:
  "fst (read_and_format_data demo_lib demo_world ''/home/u/in/Solcast_a.csv'') =
     Inr \<lparr>columns = [''Energy''],
          rows = [(stamp 2020 1 1 0, [Num 0]), (stamp 2020 1 1 1, [Num (5 / 2)])]\<rparr>
   \<and> read_csv_raw demo_lib ''A'' =
       Inr \<lparr>columns = [''kW''],
            rows = [(''01/01/20 00:00'', [Num (- 5)]), (''01/01/20 01:00'', [Num 2500])]\<rparr>
   \<and> clamping_law (Num (- 5)) = Num 0
   \<and> [[Num 0], [Num (5 / 2)]] = map (map clamping_law) [[Num (- 5)], [Num 2500]]"
proof -
  have r: "read_csv_raw demo_lib ''A'' =
       Inr \<lparr>columns = [''kW''],
            rows = [(''01/01/20 00:00'', [Num (- 5)]), (''01/01/20 01:00'', [Num 2500])]\<rparr>"
    by (simp add: demo_lib_def file_a_def)
  have c: "contents demo_world ''/home/u/in/Solcast_a.csv'' = Some ''A''"
    by (simp add: demo_world_def)
  show ?thesis
    using formatted_cells_follow_clamping_law [OF demo_format_a] demo_format_a r c
    by auto
qed

section \<open>The Compiler\<close>

text \<open>
  C3: a fresh compilation that returns a table has read a non-empty list of matching
  files, and its index is the concatenation of the indexes of their formatted tables, in
  listing order: the row count is the sum of the per-file row counts and a timestamp that
  occurs in two files occurs twice.
\<close>

theorem compiled_rows_are_all_rows:
  assumes "fst (check_file_processing w (output_file w dataset_name)) = Inr True"
    and "fst (compile_data lib w directory dataset_name transformer_loss transmission_loss
           save_data) = Inr compiled_df"
  shows "\<exists>files data_frames.
       fst (list_files w directory dataset_name) = Inr files \<and> files \<noteq> []
     \<and> list_all2 (\<lambda>file df. fst (read_and_format_data lib w file) = Inr df) files data_frames
     \<and> length (rows compiled_df) = sum_list (map (\<lambda>df. length (rows df)) data_frames)
     \<and> map fst (rows compiled_df) = concat (map (\<lambda>df. map fst (rows df)) data_frames)"
proof -
  let ?w1 = "snd (check_file_processing w (output_file w dataset_name))"
  have "fst (process_files lib ?w1 directory dataset_name transformer_loss transmission_loss
           save_data) = Inr compiled_df"
    using assms compile_data_fresh by metis
  from process_files_Inr[OF this] obtain fs dfs df where
    fs: "fst (list_files ?w1 directory dataset_name) = Inr fs"
    and dfs: "list_all2 (\<lambda>file df. fst (read_and_format_data lib ?w1 file) = Inr df) fs dfs"
    and df: "pd_concat dfs = Inr df"
    and t: "compiled_df = apply_losses transformer_loss transmission_loss df"
    by blast
  have fs': "fst (list_files w directory dataset_name) = Inr fs"
    using fs list_files_fst_cong[of ?w1 directory w dataset_name] by (simp add: check_world)
  have dfs': "list_all2 (\<lambda>file df. fst (read_and_format_data lib w file) = Inr df) fs dfs"
    by (rule list_all2_read_cong[OF dfs]) (simp add: check_world)
  have ne: "dfs \<noteq> []" and ix: "map fst (rows df) = concat (map (\<lambda>d. map fst (rows d)) dfs)"
    using pd_concat_Inr[OF df] by simp_all
  have "fs \<noteq> []" using ne dfs' by auto
  moreover have i: "map fst (rows compiled_df) = concat (map (\<lambda>d. map fst (rows d)) dfs)"
    using ix t by (simp add: apply_losses_rows)
  moreover have "length (rows compiled_df) = sum_list (map (\<lambda>df. length (rows df)) dfs)"
  proof -
    have "length (rows compiled_df) = length (map fst (rows compiled_df))" by simp
    also have "\<dots> = sum_list (map (\<lambda>df. length (rows df)) dfs)"
      unfolding i by (simp add: length_concat comp_def)
    finally show ?thesis .
  qed
  ultimately show ?thesis using fs' dfs' by blast
qed

text \<open>
  C3, witness: the two record files of \<open>demo_world\<close> have two rows each and share
  the timestamp of 1 January 2020, 01:00; the compiled table has four rows and carries
  that timestamp twice.
\<close>

theorem compiled_rows_are_all_rows_witness:
  "fst (check_file_processing demo_world (output_file demo_world ''Solcast'')) = Inr True
   \<and> fst (compile_data demo_lib demo_world ''/home/u/in'' ''Solcast'' 0.003 0.01 False)
       = Inr demo_compiled
   \<and> (\<exists>files data_frames.
         fst (list_files demo_world ''/home/u/in'' ''Solcast'') = Inr files \<and> files \<noteq> []
       \<and> list_all2 (\<lambda>file df. fst (read_and_format_data demo_lib demo_world file) = Inr df)
            files data_frames
       \<and> 4 = sum_list (map (\<lambda>df. length (rows df)) data_frames)
       \<and> [stamp 2020 1 1 0, stamp 2020 1 1 1, stamp 2020 1 1 1, stamp 2021 1 1 0]
           = concat (map (\<lambda>df. map fst (rows df)) data_frames))"
proof -
  have l: "length (rows demo_compiled) = 4"
    and i: "map fst (rows demo_compiled)
      = [stamp 2020 1 1 0, stamp 2020 1 1 1, stamp 2020 1 1 1, stamp 2021 1 1 0]"
    by (simp_all add: demo_compiled_def)
  show ?thesis
    using compiled_rows_are_all_rows [OF demo_check_fresh demo_run_False]
      demo_check_fresh demo_run_False
    unfolding l i by blast
qed

text \<open>
  C1: in a fresh compilation every cell of the compiled table is the cell of a per-file
  table, taken in listing order, multiplied once by \<open>(1 - transformer_loss) *
  (1 - transmission_loss)\<close>. Where the per-file tables have the same columns, the
  compiled table has these columns and its rows are the rows of the per-file tables under
  the scaling law. Where they differ, the compiled table has each of their columns once,
  and the cell of a row under a column is the scaling law of the cell the per-file row
  has under that column, missing where the file has no such column. A second fresh
  compilation over the same inputs (the same listing of the directory and the same text
  in every listed file) returns the same table again, not a table scaled twice; when it
  persists, the only other outcome is an \<^verbatim>\<open>OSError\<close> from writing.
\<close>

theorem losses_applied_exactly_once:
  assumes fresh: "fst (check_file_processing w (output_file w dataset_name)) = Inr True"
    and run: "fst (compile_data lib w directory dataset_name transformer_loss transmission_loss
                save_data) = Inr compiled_df"
    and listing: "dirs w directory = Some names"
    and fresh_again: "fst (check_file_processing w2 (output_file w2 dataset_name)) = Inr True"
    and same_listing: "dirs w2 directory = Some names"
    and same_files: "\<forall>name \<in> set names.
        contents w2 (path_join directory name) = contents w (path_join directory name)"
  shows "(\<exists>files data_frames.
            fst (list_files w directory dataset_name) = Inr files
          \<and> list_all2 (\<lambda>file df. fst (read_and_format_data lib w file) = Inr df)
               files data_frames
          \<and> data_frames \<noteq> []
          \<and> (list_all (\<lambda>df. columns df = columns (hd data_frames)) data_frames \<longrightarrow>
                columns compiled_df = columns (hd data_frames)
              \<and> rows compiled_df =
                  concat (map (\<lambda>df. map (\<lambda>(l, cs).
                                 (l, map (scaling_law transformer_loss transmission_loss) cs))
                               (rows df)) data_frames))
          \<and> (\<not> list_all (\<lambda>df. columns df = columns (hd data_frames)) data_frames \<longrightarrow>
                distinct (columns compiled_df)
              \<and> set (columns compiled_df) = (\<Union>df \<in> set data_frames. set (columns df))
              \<and> rows compiled_df =
                  concat (map (\<lambda>df. map (\<lambda>(l, cs).
                                 (l, map (\<lambda>c. scaling_law transformer_loss transmission_loss
                                               (cell_under (columns df) cs c))
                                         (columns compiled_df)))
                               (rows df)) data_frames)))
       \<and> fst (compile_data lib w2 directory dataset_name transformer_loss transmission_loss
                False) = Inr compiled_df
       \<and> (fst (compile_data lib w2 directory dataset_name transformer_loss transmission_loss
                True) = Inr compiled_df
          \<or> (\<exists>p. fst (compile_data lib w2 directory dataset_name transformer_loss
                transmission_loss True) = Inl (OSError p)))"
proof -
  from fresh_compile_Inr[OF fresh run] obtain fs dfs df where
    fs: "fst (list_files w directory dataset_name) = Inr fs"
    and dfs: "list_all2 (\<lambda>file df. fst (read_and_format_data lib w file) = Inr df) fs dfs"
    and df: "pd_concat dfs = Inr df"
    and t: "compiled_df = apply_losses transformer_loss transmission_loss df"
    by blast
  have "fs = filter (str_in dataset_name) (map (path_join directory) names)"
    using fs list_files_fst[OF listing, of dataset_name] by simp
  then have sub: "\<forall>q \<in> set fs. contents w2 q = contents w q"
    using same_files by auto
  have fs2: "fst (list_files w2 directory dataset_name) = Inr fs"
    using fs list_files_fst_cong[of w2 directory w dataset_name] listing same_listing by simp
  have dfs2: "list_all2 (\<lambda>file df. fst (read_and_format_data lib w2 file) = Inr df) fs dfs"
    by (rule list_all2_read_cong[OF dfs sub])
  note again = fresh_compile_complete[OF fresh_again fs2 dfs2 df,
      of transformer_loss transmission_loss]
  have ne: "dfs \<noteq> []" using pd_concat_Inr[OF df] by simp
  have cols: "columns compiled_df = columns df"
    and rws: "rows compiled_df =
       map (\<lambda>(l, cs). (l, map (scaling_law transformer_loss transmission_loss) cs)) (rows df)"
    unfolding t by (simp_all add: apply_losses_scaling)
  have same: "columns compiled_df = columns (hd dfs)
      \<and> rows compiled_df =
          concat (map (\<lambda>df. map (\<lambda>(l, cs).
                         (l, map (scaling_law transformer_loss transmission_loss) cs))
                       (rows df)) dfs)"
    if h: "list_all (\<lambda>df. columns df = columns (hd dfs)) dfs"
  proof -
    from pd_concat_same[OF df h] have c: "columns df = columns (hd dfs)"
      and r: "rows df = concat (map rows dfs)" by simp_all
    have "map (\<lambda>(l, cs). (l, map (scaling_law transformer_loss transmission_loss) cs))
            (concat (map rows dfs))
        = concat (map (\<lambda>df. map (\<lambda>(l, cs).
                         (l, map (scaling_law transformer_loss transmission_loss) cs))
                       (rows df)) dfs)"
      by (simp add: map_concat comp_def)
    then show ?thesis using c r cols rws by simp
  qed
  have mixed: "distinct (columns compiled_df)
      \<and> set (columns compiled_df) = (\<Union>df \<in> set dfs. set (columns df))
      \<and> rows compiled_df =
          concat (map (\<lambda>df. map (\<lambda>(l, cs).
                         (l, map (\<lambda>c. scaling_law transformer_loss transmission_loss
                                       (cell_under (columns df) cs c))
                                 (columns compiled_df)))
                       (rows df)) dfs)"
    if h: "\<not> list_all (\<lambda>df. columns df = columns (hd dfs)) dfs"
  proof -
    from pd_concat_mixed[OF df h] have d: "distinct (columns df)"
      and u: "set (columns df) = (\<Union>d \<in> set dfs. set (columns d))"
      and r: "rows df = concat (map (\<lambda>d. map (\<lambda>(l, cs).
                  (l, map (cell_under (columns d) cs) (columns df))) (rows d)) dfs)"
      by simp_all
    have "rows compiled_df =
        concat (map (\<lambda>d. map (\<lambda>(l, cs).
                  (l, map (scaling_law transformer_loss transmission_loss)
                        (map (cell_under (columns d) cs) (columns df)))) (rows d)) dfs)"
      unfolding rws r by (rule scale_concat)
    then show ?thesis using d u cols by (simp add: comp_def)
  qed
  have a2: "fst (compile_data lib w2 directory dataset_name transformer_loss transmission_loss
                False) = Inr compiled_df"
    "fst (compile_data lib w2 directory dataset_name transformer_loss transmission_loss
                True) = Inr compiled_df
          \<or> (\<exists>p. fst (compile_data lib w2 directory dataset_name transformer_loss
                transmission_loss True) = Inl (OSError p))"
    using again unfolding t by simp_all
  show ?thesis
    apply (intro conjI a2 exI[of _ fs] exI[of _ dfs] fs dfs ne impI)
    using same mixed by simp_all
qed

text \<open>
  C1, witness: the fresh compilation of \<open>demo_world\<close>, run again in the world the
  first, persisting run leaves behind, returns \<open>demo_compiled\<close> both times; its rows
  are the rows of the two per-file tables under the scaling law, 2.5 becoming
  2.467575. In \<open>mixed_world\<close> the second record file has a further column
  \<open>Temp\<close>: the compiled table has the columns \<open>Energy\<close> and \<open>Temp\<close>, the rows
  of the first file have no value under \<open>Temp\<close>, and the scaled 4 of the second file
  stands under \<open>Energy\<close>.
\<close>

theorem losses_applied_exactly_once_witness:
  "fst (check_file_processing demo_world (output_file demo_world ''Solcast'')) = Inr True
   \<and> fst (compile_data demo_lib demo_world ''/home/u/in'' ''Solcast'' 0.003 0.01 True)
        = Inr demo_compiled
   \<and> demo_rerun_world
        = snd (compile_data demo_lib demo_world ''/home/u/in'' ''Solcast'' 0.003 0.01 True)
   \<and> fst (check_file_processing demo_rerun_world (output_file demo_rerun_world ''Solcast''))
        = Inr True
   \<and> fst (compile_data demo_lib demo_rerun_world ''/home/u/in'' ''Solcast'' 0.003 0.01 False)
        = Inr demo_compiled
   \<and> list_all (\<lambda>df. columns df = columns (hd [formatted_a, formatted_b]))
        [formatted_a, formatted_b]
   \<and> rows demo_compiled =
        concat (map (\<lambda>df. map (\<lambda>(l, cs). (l, map (scaling_law 0.003 0.01) cs)) (rows df))
                    [formatted_a, formatted_b])
   \<and> scaling_law 0.003 0.01 (Num (5 / 2)) = Num (98703 / 40000)
   \<and> fst (compile_data demo_lib mixed_world ''/home/u/in'' ''Solcast'' 0.003 0.01 False)
        = Inr mixed_compiled
   \<and> \<not> list_all (\<lambda>df. columns df = columns (hd [formatted_a, formatted_m]))
        [formatted_a, formatted_m]
   \<and> rows mixed_compiled =
        concat (map (\<lambda>df. map (\<lambda>(l, cs).
                       (l, map (\<lambda>c. scaling_law 0.003 0.01 (cell_under (columns df) cs c))
                               (columns mixed_compiled)))
                     (rows df)) [formatted_a, formatted_m])
   \<and> cell_under [''Temp'', ''Energy''] [Num 0, Num 4] ''Energy'' = Num 4"
proof -
  have l: "dirs demo_world ''/home/u/in'' = Some [''Solcast_a.csv'', ''notes.txt'', ''Solcast_b.csv'']"
    by (simp add: demo_world_def)
  have c: "contents demo_world ''/home/u/in/Solcast_a.csv'' = Some ''A''"
    "contents demo_world ''/home/u/in/notes.txt'' = Some ''hello''"
    "contents demo_world ''/home/u/in/Solcast_b.csv'' = Some ''B''"
    by (simp_all add: demo_world_def)
  have f: "\<forall>name \<in> set [''Solcast_a.csv'', ''notes.txt'', ''Solcast_b.csv''].
      contents demo_rerun_world (path_join ''/home/u/in'' name)
        = contents demo_world (path_join ''/home/u/in'' name)"
    by (simp add: path_join_def demo_after_first_run c)
  note twice = losses_applied_exactly_once [OF demo_check_fresh demo_run_True l demo_check_again
      demo_after_first_run(3) f]
  have again: "fst (compile_data demo_lib demo_rerun_world ''/home/u/in'' ''Solcast'' 0.003 0.01
      False) = Inr demo_compiled"
    using twice by (elim conjE)
  from twice obtain files dfs where
    fl: "fst (list_files demo_world ''/home/u/in'' ''Solcast'') = Inr files"
    and rd: "list_all2 (\<lambda>file df. fst (read_and_format_data demo_lib demo_world file) = Inr df)
        files dfs"
    and sm: "list_all (\<lambda>df. columns df = columns (hd dfs)) dfs \<longrightarrow>
        rows demo_compiled =
          concat (map (\<lambda>df. map (\<lambda>(l, cs). (l, map (scaling_law 0.003 0.01) cs)) (rows df)) dfs)"
    by (elim conjE exE) blast
  have "files = [''/home/u/in/Solcast_a.csv'', ''/home/u/in/Solcast_b.csv'']"
    using fl demo_listed(1) by simp
  then have dfs: "dfs = [formatted_a, formatted_b]"
    using rd demo_formatted(1,2) by (auto simp: list_all2_Cons1)
  have same: "list_all (\<lambda>df. columns df = columns (hd [formatted_a, formatted_b]))
        [formatted_a, formatted_b]"
    by (simp add: formatted_a_def formatted_b_def)
  have rows1: "rows demo_compiled =
        concat (map (\<lambda>df. map (\<lambda>(l, cs). (l, map (scaling_law 0.003 0.01) cs)) (rows df))
                    [formatted_a, formatted_b])"
    using sm same unfolding dfs by blast
  have ml: "\<forall>name \<in> set [''Solcast_a.csv'', ''Solcast_m.csv''].
      contents mixed_world (path_join ''/home/u/in'' name)
        = contents mixed_world (path_join ''/home/u/in'' name)"
    by simp
  note mixed = losses_applied_exactly_once [OF mixed_run(1) mixed_run(2) mixed_run(3)
      mixed_run(1) mixed_run(3) ml]
  from mixed obtain files' dfs' where
    fl': "fst (list_files mixed_world ''/home/u/in'' ''Solcast'') = Inr files'"
    and rd': "list_all2 (\<lambda>file df. fst (read_and_format_data demo_lib mixed_world file) = Inr df)
        files' dfs'"
    and mx: "\<not> list_all (\<lambda>df. columns df = columns (hd dfs')) dfs' \<longrightarrow>
        rows mixed_compiled =
          concat (map (\<lambda>df. map (\<lambda>(l, cs).
                       (l, map (\<lambda>c. scaling_law 0.003 0.01 (cell_under (columns df) cs c))
                               (columns mixed_compiled)))
                     (rows df)) dfs')"
    by (elim conjE exE) blast
  have "files' = [''/home/u/in/Solcast_a.csv'', ''/home/u/in/Solcast_m.csv'']"
    using fl' demo_listed(2) by simp
  then have dfs': "dfs' = [formatted_a, formatted_m]"
    using rd' demo_formatted(3,4) by (auto simp: list_all2_Cons1)
  have differ: "\<not> list_all (\<lambda>df. columns df = columns (hd [formatted_a, formatted_m]))
        [formatted_a, formatted_m]"
    by (simp add: formatted_a_def formatted_m_def)
  have rows2: "rows mixed_compiled =
        concat (map (\<lambda>df. map (\<lambda>(l, cs).
                       (l, map (\<lambda>c. scaling_law 0.003 0.01 (cell_under (columns df) cs c))
                               (columns mixed_compiled)))
                     (rows df)) [formatted_a, formatted_m])"
    using mx differ unfolding dfs' by blast
  have s1: "scaling_law 0.003 0.01 (Num (5 / 2)) = Num (98703 / 40000)" by simp
  have s2: "cell_under [''Temp'', ''Energy''] [Num 0, Num 4] ''Energy'' = Num 4" by simp
  have r: "demo_rerun_world
        = snd (compile_data demo_lib demo_world ''/home/u/in'' ''Solcast'' 0.003 0.01 True)"
    by (simp add: demo_rerun_world_def)
  show ?thesis
    by (intro conjI demo_check_fresh demo_run_True r demo_check_again again same rows1 s1
        mixed_run(2) differ rows2 s2)
qed

text \<open>
  C9: in a fresh compilation with the persist flag unset, directories and files are as
  before and neither \<^verbatim>\<open>makedirs\<close> nor \<^verbatim>\<open>to_csv\<close> is called. With the flag set, a
  run that returns a table has created the output directory and then written the table
  there, and the table is the one the run without the flag returns; conversely the
  persisting run returns that table unless creating or writing raises an
  \<^verbatim>\<open>OSError\<close>. Creating the directory is idempotent: where it exists already,
  \<^verbatim>\<open>makedirs\<close> succeeds and changes nothing.
\<close>

theorem persist_iff_flag:
  assumes fresh: "fst (check_file_processing w (output_file w dataset_name)) = Inr True"
  shows "(dirs (snd (compile_data lib w directory dataset_name transformer_loss
                      transmission_loss False)) = dirs w
          \<and> contents (snd (compile_data lib w directory dataset_name transformer_loss
                      transmission_loss False)) = contents w
          \<and> (\<exists>evs. trace (snd (compile_data lib w directory dataset_name transformer_loss
                      transmission_loss False)) = trace w @ evs
                \<and> (\<forall>p. MakeDirs p \<notin> set evs \<and> WriteFile p \<notin> set evs)))
       \<and> (fst (compile_data lib w directory dataset_name transformer_loss transmission_loss
                  True) = Inr compiled_df \<longrightarrow>
            fst (compile_data lib w directory dataset_name transformer_loss transmission_loss
                  False) = Inr compiled_df
          \<and> is_dir (snd (compile_data lib w directory dataset_name transformer_loss
                  transmission_loss True)) (output_dir w)
          \<and> contents (snd (compile_data lib w directory dataset_name transformer_loss
                  transmission_loss True)) (output_file w dataset_name)
              = Some (to_csv lib compiled_df)
          \<and> (\<exists>evs. trace (snd (compile_data lib w directory dataset_name transformer_loss
                  transmission_loss True))
                = trace w @ evs @ [MakeDirs (output_dir w),
                                   WriteFile (output_file w dataset_name)]))
       \<and> (fst (compile_data lib w directory dataset_name transformer_loss transmission_loss
                  False) = Inr compiled_df \<longrightarrow>
            fst (compile_data lib w directory dataset_name transformer_loss transmission_loss
                  True) = Inr compiled_df
          \<or> (\<exists>p. fst (compile_data lib w directory dataset_name transformer_loss
                  transmission_loss True) = Inl (OSError p)))
       \<and> (is_dir w (output_dir w) \<and> path_exists w (path_join (cwd w) ''data'') \<longrightarrow>
            makedirs w (output_dir w) = Inr w)"
proof -
  let ?w1 = "snd (check_file_processing w (output_file w dataset_name))"
  let ?run = "\<lambda>sd. compile_data lib w directory dataset_name transformer_loss
                  transmission_loss sd"
  let ?pf = "\<lambda>sd. process_files lib ?w1 directory dataset_name transformer_loss
                  transmission_loss sd"
  have run: "?run sd = ?pf sd" for sd by (rule compile_data_fresh[OF fresh])
  have od: "output_dir ?w1 = output_dir w" "output_file ?w1 dataset_name = output_file w dataset_name"
    by (rule output_paths_cong, rule check_world)+
  from check_trace[of w "output_file w dataset_name"] obtain evs0 where
    evs0: "trace ?w1 = trace w @ evs0"
      "\<forall>q. MakeDirs q \<notin> set evs0 \<and> WriteFile q \<notin> set evs0" by blast
  have A: "dirs (snd (?run False)) = dirs w \<and> contents (snd (?run False)) = contents w
          \<and> (\<exists>evs. trace (snd (?run False)) = trace w @ evs
                \<and> (\<forall>p. MakeDirs p \<notin> set evs \<and> WriteFile p \<notin> set evs))"
  proof -
    from process_files_world[of lib ?w1 directory dataset_name transformer_loss
        transmission_loss False]
    obtain evs where e: "dirs (snd (?pf False)) = dirs ?w1"
      "contents (snd (?pf False)) = contents ?w1"
      "trace (snd (?pf False)) = trace ?w1 @ evs"
      "\<forall>p. MakeDirs p \<notin> set evs \<and> WriteFile p \<notin> set evs" by auto
    have "trace (snd (?run False)) = trace w @ (evs0 @ evs)"
      using e(3) evs0(1) run by simp
    moreover have "\<forall>p. MakeDirs p \<notin> set (evs0 @ evs) \<and> WriteFile p \<notin> set (evs0 @ evs)"
      using e(4) evs0(2) by simp
    ultimately show ?thesis using e(1,2) run check_world(2,3) by metis
  qed
  have B: "fst (?run False) = Inr compiled_df
          \<and> is_dir (snd (?run True)) (output_dir w)
          \<and> contents (snd (?run True)) (output_file w dataset_name) = Some (to_csv lib compiled_df)
          \<and> (\<exists>evs. trace (snd (?run True))
                = trace w @ evs @ [MakeDirs (output_dir w), WriteFile (output_file w dataset_name)])"
    if t: "fst (?run True) = Inr compiled_df"
  proof -
    from fresh_compile_Inr[OF fresh t] obtain fs dfs df where
      fs: "fst (list_files w directory dataset_name) = Inr fs"
      and dfs: "list_all2 (\<lambda>file df. fst (read_and_format_data lib w file) = Inr df) fs dfs"
      and df: "pd_concat dfs = Inr df"
      and c: "compiled_df = apply_losses transformer_loss transmission_loss df" by blast
    have f: "fst (?run False) = Inr compiled_df"
      using fresh_compile_complete(1)[OF fresh fs dfs df] c by simp
    have "fst (?pf True) = Inr compiled_df" using t run by simp
    from process_files_persisted[OF this] obtain evs where
      p: "is_dir (snd (?pf True)) (output_dir w)"
        "contents (snd (?pf True)) (output_file w dataset_name) = Some (to_csv lib compiled_df)"
        "trace (snd (?pf True)) = trace ?w1 @ evs
           @ [MakeDirs (output_dir w), WriteFile (output_file w dataset_name)]"
      unfolding od by blast
    have "trace (snd (?run True)) = trace w @ (evs0 @ evs)
           @ [MakeDirs (output_dir w), WriteFile (output_file w dataset_name)]"
      using p(3) evs0(1) run by simp
    then show ?thesis using f p(1,2) run by metis
  qed
  have C: "fst (?run True) = Inr compiled_df \<or> (\<exists>p. fst (?run True) = Inl (OSError p))"
    if t: "fst (?run False) = Inr compiled_df"
  proof -
    from fresh_compile_Inr[OF fresh t] obtain fs dfs df where
      fs: "fst (list_files w directory dataset_name) = Inr fs"
      and dfs: "list_all2 (\<lambda>file df. fst (read_and_format_data lib w file) = Inr df) fs dfs"
      and df: "pd_concat dfs = Inr df"
      and c: "compiled_df = apply_losses transformer_loss transmission_loss df" by blast
    show ?thesis using fresh_compile_complete(2)[OF fresh fs dfs df] c by simp
  qed
  have D: "makedirs w (output_dir w) = Inr w"
    if "is_dir w (output_dir w) \<and> path_exists w (path_join (cwd w) ''data'')"
    using that makedirs_existing by blast
  show ?thesis using A B C D by blast
qed

text \<open>
  C9, witness: in \<open>demo_world\<close> both runs return the same table, only the persisting
  one writes it; in the world it leaves behind the output directory exists and
  \<^verbatim>\<open>makedirs\<close> is the identity.
\<close>

theorem persist_iff_flag_witness:
  "fst (check_file_processing demo_world (output_file demo_world ''Solcast'')) = Inr True
   \<and> fst (compile_data demo_lib demo_world ''/home/u/in'' ''Solcast'' 0.003 0.01 True)
        = Inr demo_compiled
   \<and> fst (compile_data demo_lib demo_world ''/home/u/in'' ''Solcast'' 0.003 0.01 False)
        = Inr demo_compiled
   \<and> contents (snd (compile_data demo_lib demo_world ''/home/u/in'' ''Solcast'' 0.003 0.01 True))
        (output_file demo_world ''Solcast'') = Some (to_csv demo_lib demo_compiled)
   \<and> contents (snd (compile_data demo_lib demo_world ''/home/u/in'' ''Solcast'' 0.003 0.01 False))
        = contents demo_world
   \<and> dirs (snd (compile_data demo_lib demo_world ''/home/u/in'' ''Solcast'' 0.003 0.01 False))
        = dirs demo_world
   \<and> fst (check_file_processing demo_rerun_world (output_file demo_rerun_world ''Solcast''))
        = Inr True
   \<and> is_dir demo_rerun_world (output_dir demo_rerun_world)
   \<and> path_exists demo_rerun_world (path_join (cwd demo_rerun_world) ''data'')
   \<and> makedirs demo_rerun_world (output_dir demo_rerun_world) = Inr demo_rerun_world"
proof -
  note first = persist_iff_flag [OF demo_check_fresh, of demo_lib "''/home/u/in''" "0.003" "0.01"
      demo_compiled]
  note again = persist_iff_flag [OF demo_check_again, of demo_lib "''/home/u/in''" "0.003" "0.01"
      demo_compiled]
  have o: "output_dir demo_rerun_world = ''/home/u/data/output''"
    "path_join (cwd demo_rerun_world) ''data'' = ''/home/u/data''"
    by (simp_all add: output_dir_def path_join_def demo_after_first_run(1))
  have d: "is_dir demo_rerun_world (output_dir demo_rerun_world)"
    "path_exists demo_rerun_world (path_join (cwd demo_rerun_world) ''data'')"
    unfolding o by (simp_all add: is_dir_def path_exists_def demo_after_first_run)
  from again d have m: "makedirs demo_rerun_world (output_dir demo_rerun_world) = Inr demo_rerun_world"
    by blast
  from first demo_run_True
  have c: "contents (snd (compile_data demo_lib demo_world ''/home/u/in'' ''Solcast'' 0.003 0.01 True))
        (output_file demo_world ''Solcast'') = Some (to_csv demo_lib demo_compiled)"
    by blast
  from first
  have f: "contents (snd (compile_data demo_lib demo_world ''/home/u/in'' ''Solcast'' 0.003 0.01 False))
        = contents demo_world"
    "dirs (snd (compile_data demo_lib demo_world ''/home/u/in'' ''Solcast'' 0.003 0.01 False))
        = dirs demo_world"
    by blast+
  show ?thesis
    using demo_check_fresh demo_run_True demo_run_False c f demo_check_again d m
    by (intro conjI)
qed

section \<open>The Top-N Years renderer\<close>

text \<open>
  C8, as the specification words it, has \<^verbatim>\<open>plot_top_years\<close> select the best years
  whenever the table has an \<open>Energy\<close> column. A table with two columns of that label
  has one, yet \<^verbatim>\<open>nlargest\<close> raises an \<^verbatim>\<open>AttributeError\<close>; and where nothing is
  selected, here with \<open>top_n = 0\<close>, the bar chart raises an \<^verbatim>\<open>IndexError\<close>.
\<close>

theorem energy_column_twice_counterexample:
  "''Energy'' \<in> set (columns twice_labelled_table)
   \<and> plot_top_years demo_savefig demo_world twice_labelled_table 1 False
        = (Inl (AttributeError ''dtype''), demo_world)
   \<and> ''Energy'' \<in> set (columns demo_compiled)
   \<and> plot_top_years demo_savefig demo_world demo_compiled 0 False
        = (Inl (IndexError ''index 0 is out of bounds for axis 0 with size 0''), demo_world)"
  by (simp add: plot_top_years_def groupby_year_sum_def nlargest_def demo_compiled_def
      twice_labelled_table_def stamp_def cell_at_def plot_barh_def Let_def)

text \<open>
  C8, amended: without an \<open>Energy\<close> column \<^verbatim>\<open>plot_top_years\<close> raises
  \<^verbatim>\<open>KeyError('Energy')\<close>, with several it raises an \<^verbatim>\<open>AttributeError\<close>, in both
  cases before anything is drawn or written. With exactly one, the selected table has
  \<open>min top_n (number of years)\<close> rows, one per selected year and no year twice; each
  row carries the year's summed \<open>Energy\<close>; the rows are in descending order of that
  total and no year left out has a larger total than a selected one. An empty selection
  makes the bar chart raise an \<^verbatim>\<open>IndexError\<close>; otherwise the chart shows the
  selected table, each bar labelled with its total, unless saving the image raises an
  \<^verbatim>\<open>OSError\<close>.
\<close>

theorem top_years_selection:
  "(''Energy'' \<notin> set (columns data) \<longrightarrow>
      plot_top_years savefig w data top_n save_image = (Inl (KeyError ''Energy''), w))
   \<and> (1 < count_list (columns data) ''Energy'' \<longrightarrow>
      plot_top_years savefig w data top_n save_image = (Inl (AttributeError ''dtype''), w))
   \<and> (count_list (columns data) ''Energy'' = 1 \<longrightarrow>
        (\<exists>top_years.
             length (rows top_years) = min (nat top_n) (card (years_of data))
           \<and> distinct (map fst (rows top_years))
           \<and> (\<forall>(y, cs) \<in> set (rows top_years).
                 y \<in> years_of data
               \<and> cell_at cs (energy_column data) = Num (yearly_energy data y))
           \<and> sorted_wrt (\<lambda>a b. yearly_energy data a \<ge> yearly_energy data b)
                 (map fst (rows top_years))
           \<and> (\<forall>y \<in> years_of data - set (map fst (rows top_years)).
                \<forall>s \<in> set (map fst (rows top_years)).
                  yearly_energy data y \<le> yearly_energy data s)
           \<and> (rows top_years = [] \<longrightarrow>
                (\<exists>m. plot_top_years savefig w data top_n save_image = (Inl (IndexError m), w)))
           \<and> (rows top_years \<noteq> [] \<longrightarrow>
                fst (plot_top_years savefig w data top_n save_image) =
                  Inr \<lparr>bars = top_years,
                       texts = zip (map (\<lambda>y. Num (yearly_energy data y))
                                        (map fst (rows top_years)))
                                   [0..<length (rows top_years)]\<rparr>
              \<or> save_image
                \<and> (\<exists>p. fst (plot_top_years savefig w data top_n save_image)
                          = Inl (OSError p)))))"
proof (intro conjI impI)
  assume "''Energy'' \<notin> set (columns data)"
  then have "''Energy'' \<notin> set (columns (groupby_year_sum data))"
    by (simp add: groupby_year_sum_def Let_def)
  then show "plot_top_years savefig w data top_n save_image = (Inl (KeyError ''Energy''), w)"
    by (simp add: plot_top_years_def Let_def nlargest_missing)
next
  assume "1 < count_list (columns data) ''Energy''"
  then have "1 < count_list (columns (groupby_year_sum data)) ''Energy''"
    by (simp add: groupby_year_sum_def Let_def)
  then show "plot_top_years savefig w data top_n save_image = (Inl (AttributeError ''dtype''), w)"
    by (simp add: plot_top_years_def Let_def nlargest_several)
next
  assume a: "count_list (columns data) ''Energy'' = 1"
  define years where "years = sort (remdups (map (\<lambda>(t, cs). ts_year t) (rows data)))"
  define R where "R = (\<lambda>a b. yearly_energy data a \<ge> yearly_energy data b)"
  from top_years_rows[OF a, of top_n] obtain F where
    F: "\<And>y. fst (F y) = y"
       "\<And>y. cell_at (snd (F y)) (energy_column data) = Num (yearly_energy data y)"
    and res: "nlargest top_n ''Energy'' (groupby_year_sum data) =
         Inr \<lparr>columns = columns data,
              rows = take (nat top_n)
                (sort_key (\<lambda>r. - yearly_energy data (fst r)) (map F years))\<rparr>"
    unfolding years_def by blast
  define L where "L = sort_key (\<lambda>r. - yearly_energy data (fst r)) (map F years)"
  define top where "top = \<lparr>columns = columns data, rows = take (nat top_n) L\<rparr>"
  have sel: "nlargest top_n ''Energy'' (groupby_year_sum data) = Inr top"
    using res by (simp add: top_def L_def)
  have ys: "set years = years_of data" "distinct years"
    by (simp_all add: years_def years_of_def)
  have setL: "set L = F ` set years" by (simp add: L_def)
  have injF: "inj_on F (set years)" using F(1) by (metis inj_onI)
  have injfst: "inj_on fst (set L)"
    unfolding setL using F(1) by (auto simp: inj_on_def)
  have sL: "set (map fst L) = set years"
    using setL F(1) by (auto simp: image_image)
  have "distinct L" using ys(2) injF by (simp add: L_def distinct_map)
  then have dL: "distinct (map fst L)" using injfst by (simp add: distinct_map)
  have lL: "length L = length years" by (simp add: L_def)
  have "sorted (map (\<lambda>r. - yearly_energy data (fst r)) L)"
    unfolding L_def by (rule sorted_sort_key)
  then have "sorted_wrt (\<lambda>a b. - yearly_energy data (fst a) \<le> - yearly_energy data (fst b)) L"
    by (simp add: sorted_map)
  then have so: "sorted_wrt R (map fst L)"
    by (simp add: sorted_wrt_map R_def)
  have rt: "map fst (rows top) = take (nat top_n) (map fst L)"
    by (simp add: top_def take_map)
  have 1: "length (rows top) = min (nat top_n) (card (years_of data))"
    using lL ys distinct_card[of years] by (simp add: top_def min.commute)
  have 2: "distinct (map fst (rows top))" unfolding rt using dL by simp
  have 3: "\<forall>(y, cs) \<in> set (rows top).
             y \<in> years_of data \<and> cell_at cs (energy_column data) = Num (yearly_energy data y)"
  proof (clarify)
    fix y cs assume "(y, cs) \<in> set (rows top)"
    then have "(y, cs) \<in> set L" by (auto simp: top_def dest: in_set_takeD)
    then have "(y, cs) \<in> set (map F years)" by (simp add: L_def)
    then obtain y' where y': "y' \<in> set years" "(y, cs) = F y'" by auto
    then have "y = y'" using F(1)[of y'] by (metis fst_conv)
    then show "y \<in> years_of data \<and> cell_at cs (energy_column data) = Num (yearly_energy data y)"
      using y' F(2)[of y'] ys(1) by (metis snd_conv)
  qed
  have 4: "sorted_wrt R (map fst (rows top))"
    unfolding rt using so by (metis append_take_drop_id sorted_wrt_append)
  have 5: "\<forall>y \<in> years_of data - set (map fst (rows top)).
             \<forall>s \<in> set (map fst (rows top)). yearly_energy data y \<le> yearly_energy data s"
  proof (intro ballI)
    fix y s assume y: "y \<in> years_of data - set (map fst (rows top))"
      and s: "s \<in> set (map fst (rows top))"
    have "R s y"
      by (rule take_drop_sorted_wrt[OF so, of s "nat top_n" y]) (use y s rt sL ys(1) in auto)
    then show "yearly_energy data y \<le> yearly_energy data s" by (simp add: R_def)
  qed
  have 6: "\<exists>m. plot_top_years savefig w data top_n save_image = (Inl (IndexError m), w)"
    if "rows top = []"
    using that sel by (simp add: plot_top_years_def Let_def plot_barh_def)
  define shown where "shown = \<lparr>bars = top,
                  texts = zip (map (\<lambda>y. Num (yearly_energy data y)) (map fst (rows top)))
                              [0..<length (rows top)]\<rparr>"
  have 7: "fst (plot_top_years savefig w data top_n save_image) = Inr shown
          \<or> save_image \<and> (\<exists>p. fst (plot_top_years savefig w data top_n save_image)
                                 = Inl (OSError p))"
    if ne: "rows top \<noteq> []"
  proof -
    have ct: "count_list (columns top) ''Energy'' = 1" using a by (simp add: top_def)
    have ec: "energy_column top = energy_column data" by (simp add: energy_column_def top_def)
    have vals: "map (\<lambda>(l, cs). cell_at cs (energy_column top)) (rows top)
        = map (\<lambda>y. Num (yearly_energy data y)) (map fst (rows top))"
      using 3 unfolding ec by (auto split: prod.splits)
    define vs where "vs = map (\<lambda>y. Num (yearly_energy data y)) (map fst (rows top))"
    have cv: "column_values ''Energy'' top = Inr vs"
      using column_values_unique[OF ct] vals by (simp add: vs_def)
    have pb: "plot_barh top = Inr \<lparr>bars = top, texts = []\<rparr>"
      using ne by (simp add: plot_barh_def)
    have sh: "\<lparr>bars = top, texts = []\<rparr>\<lparr>texts := zip vs [0..<length vs]\<rparr> = shown"
      by (simp add: shown_def vs_def)
    have unf: "plot_top_years savefig w data top_n save_image =
        (if save_image then
           (case export_figure w (''top_'' @ str_int top_n @ ''_anos.png'') (savefig shown) of
              (Inl e, w1) \<Rightarrow> (Inl e, w1)
            | (Inr u, w1) \<Rightarrow> (Inr shown, w1))
         else (Inr shown, w))"
      unfolding plot_top_years_def Let_def sel pb cv sum.case sh ..
    show ?thesis
    proof (cases save_image)
      case False
      then show ?thesis using unf by simp
    next
      case True
      then show ?thesis
        using unf export_figure_result[of w "''top_'' @ str_int top_n @ ''_anos.png''"
            "savefig shown"]
        by (auto split: prod.splits sum.splits)
    qed
  qed
  show "\<exists>top_years.
             length (rows top_years) = min (nat top_n) (card (years_of data))
           \<and> distinct (map fst (rows top_years))
           \<and> (\<forall>(y, cs) \<in> set (rows top_years).
                 y \<in> years_of data
               \<and> cell_at cs (energy_column data) = Num (yearly_energy data y))
           \<and> sorted_wrt (\<lambda>a b. yearly_energy data a \<ge> yearly_energy data b)
                 (map fst (rows top_years))
           \<and> (\<forall>y \<in> years_of data - set (map fst (rows top_years)).
                \<forall>s \<in> set (map fst (rows top_years)).
                  yearly_energy data y \<le> yearly_energy data s)
           \<and> (rows top_years = [] \<longrightarrow>
                (\<exists>m. plot_top_years savefig w data top_n save_image = (Inl (IndexError m), w)))
           \<and> (rows top_years \<noteq> [] \<longrightarrow>
                fst (plot_top_years savefig w data top_n save_image) =
                  Inr \<lparr>bars = top_years,
                       texts = zip (map (\<lambda>y. Num (yearly_energy data y))
                                        (map fst (rows top_years)))
                                   [0..<length (rows top_years)]\<rparr>
              \<or> save_image
                \<and> (\<exists>p. fst (plot_top_years savefig w data top_n save_image)
                          = Inl (OSError p)))"
    using 1 2 3 4 5 6 7 unfolding R_def shown_def by (intro exI[of _ top]) blast
qed

text \<open>
  C8, witness: of the years 2020 and 2021 in the compiled table of \<open>demo_world\<close>,
  \<open>top_n = 1\<close> shows 2021, whose total is the larger one, and \<open>top_n = 0\<close> raises
  the index error; a table without the \<open>Energy\<close> column raises the key error and one
  with two such columns the attribute error.
\<close>

theorem top_years_selection_witness:
  "count_list (columns demo_compiled) ''Energy'' = 1
   \<and> fst (plot_top_years demo_savefig demo_world demo_compiled 1 False) = Inr demo_top_chart
   \<and> rows (bars demo_top_chart) \<noteq> []
   \<and> 2020 \<in> years_of demo_compiled - set (map fst (rows (bars demo_top_chart)))
   \<and> 2021 \<in> set (map fst (rows (bars demo_top_chart)))
   \<and> yearly_energy demo_compiled 2020 \<le> yearly_energy demo_compiled 2021
   \<and> texts demo_top_chart = [(Num (yearly_energy demo_compiled 2021), 0)]
   \<and> (\<exists>m. plot_top_years demo_savefig demo_world demo_compiled 0 False
            = (Inl (IndexError m), demo_world))
   \<and> ''Energy'' \<notin> set (columns unnamed_table)
   \<and> plot_top_years demo_savefig demo_world unnamed_table 3 True
        = (Inl (KeyError ''Energy''), demo_world)
   \<and> 1 < count_list (columns twice_labelled_table) ''Energy''
   \<and> plot_top_years demo_savefig demo_world twice_labelled_table 3 True
        = (Inl (AttributeError ''dtype''), demo_world)"
proof -
  have c: "count_list (columns demo_compiled) ''Energy'' = 1"
    by (simp add: demo_compiled_def)
  have u: "''Energy'' \<notin> set (columns unnamed_table)"
    by (simp add: unnamed_table_def)
  have d: "1 < count_list (columns twice_labelled_table) ''Energy''"
    by (simp add: twice_labelled_table_def)
  have b: "rows (bars demo_top_chart) \<noteq> []"
    "map fst (rows (bars demo_top_chart)) = [2021]"
    by (simp_all add: demo_top_chart_def)
  have y: "2020 \<in> years_of demo_compiled - set (map fst (rows (bars demo_top_chart)))"
    "2021 \<in> set (map fst (rows (bars demo_top_chart)))"
    by (simp_all add: demo_years b)
  have k: "plot_top_years demo_savefig demo_world unnamed_table 3 True
        = (Inl (KeyError ''Energy''), demo_world)"
    using top_years_selection [of unnamed_table demo_savefig demo_world 3 True] u by blast
  have t: "plot_top_years demo_savefig demo_world twice_labelled_table 3 True
        = (Inl (AttributeError ''dtype''), demo_world)"
    using top_years_selection [of twice_labelled_table demo_savefig demo_world 3 True] d by blast
  from top_years_selection [of demo_compiled demo_savefig demo_world 0 False,
      THEN conjunct2, THEN conjunct2, rule_format, OF c]
  obtain none :: "int frame" where "length (rows none) = min (nat 0) (card (years_of demo_compiled))"
    and "rows none = [] \<longrightarrow>
          (\<exists>m. plot_top_years demo_savefig demo_world demo_compiled 0 False
                 = (Inl (IndexError m), demo_world))"
    by (elim exE conjE) blast
  then have z: "\<exists>m. plot_top_years demo_savefig demo_world demo_compiled 0 False
                 = (Inl (IndexError m), demo_world)"
    by simp
  from top_years_selection [of demo_compiled demo_savefig demo_world 1 False,
      THEN conjunct2, THEN conjunct2, rule_format, OF c]
  obtain top :: "int frame" where len: "length (rows top) = min (nat 1) (card (years_of demo_compiled))"
    and le: "\<forall>y \<in> years_of demo_compiled - set (map fst (rows top)).
               \<forall>s \<in> set (map fst (rows top)).
                 yearly_energy demo_compiled y \<le> yearly_energy demo_compiled s"
    and shown: "rows top \<noteq> [] \<longrightarrow>
          fst (plot_top_years demo_savefig demo_world demo_compiled 1 False) =
            Inr \<lparr>bars = top,
                 texts = zip (map (\<lambda>y. Num (yearly_energy demo_compiled y)) (map fst (rows top)))
                             [0..<length (rows top)]\<rparr>
          \<or> False \<and> (\<exists>p. fst (plot_top_years demo_savefig demo_world demo_compiled 1 False)
                             = Inl (OSError p))"
    by (elim exE conjE) blast
  have "length (rows top) = 1" using len by (simp add: demo_years)
  then have ne: "rows top \<noteq> []" by auto
  define Z where "Z = zip (map (\<lambda>y. Num (yearly_energy demo_compiled y)) (map fst (rows top)))
                             [0..<length (rows top)]"
  have "fst (plot_top_years demo_savefig demo_world demo_compiled 1 False)
          = Inr \<lparr>bars = top, texts = Z\<rparr>"
    using shown ne unfolding Z_def by blast
  then have eq: "demo_top_chart = \<lparr>bars = top, texts = Z\<rparr>"
    using demo_top_year by simp
  have top: "top = bars demo_top_chart"
    using arg_cong[OF eq, of bars] by simp
  have "texts demo_top_chart = Z"
    using arg_cong[OF eq, of texts] by simp
  moreover have "length (rows (bars demo_top_chart)) = 1"
    by (simp add: demo_top_chart_def)
  ultimately have tx: "texts demo_top_chart = [(Num (yearly_energy demo_compiled 2021), 0)]"
    unfolding Z_def top b(2) by simp
  have l: "yearly_energy demo_compiled 2020 \<le> yearly_energy demo_compiled 2021"
    using le y unfolding top by blast
  show ?thesis using c demo_top_year b(1) y l tx z u k d t by (intro conjI)
qed

end
